theory Spec2Isabelle
  imports Complex_Main "HOL-Library.Log_Nat"
begin

section \<open>Go machine arithmetic\<close>

text \<open>
  Go's \<^verbatim>\<open>int\<close> and \<^verbatim>\<open>int64\<close> are 64-bit two's-complement integers on the desktop targets
  of this program.  They are modelled as \<^typ>\<open>int\<close>, every arithmetic result being wrapped
  by \<open>s64\<close>.
\<close>

definition s64 :: "int \<Rightarrow> int" where
  "s64 x = (x + 2 ^ 63) mod 2 ^ 64 - 2 ^ 63"

definition in_int64 :: "int \<Rightarrow> bool" where
  "in_int64 x \<longleftrightarrow> - (2 ^ 63) \<le> x \<and> x < 2 ^ 63"

text \<open>The conversion \<^verbatim>\<open>int32(uValue)\<close> of a value below \<open>2^32\<close>.\<close>

definition int32_of_uint :: "int \<Rightarrow> int" where
  "int32_of_uint u = (if u < 2 ^ 31 then u else u - 2 ^ 32)"

subsection \<open>float64\<close>

text \<open>
  A \<^verbatim>\<open>float64\<close> is an IEEE-754 binary64 value: a finite value (kept as the rational
  number it denotes), an infinity or NaN.  Every operation computes the exact rational
  result and rounds it once, to nearest with ties to even, with 53 bits of precision,
  gradual underflow below \<open>2^-1022\<close> and overflow to an infinity.  The sign of a zero
  is not kept.
\<close>

datatype float64 = Fin rat | PInf | NInf | NaN

definition pow2 :: "int \<Rightarrow> rat" where
  "pow2 k = (if 0 \<le> k then of_int (2 ^ nat k) else 1 / of_int (2 ^ nat (- k)))"

text \<open>The exponent \<open>e\<close> with \<open>2^e \<le> a < 2^(e+1)\<close>, for \<open>a > 0\<close>.\<close>

definition floor_log2 :: "rat \<Rightarrow> int" where
  "floor_log2 a = (if 1 \<le> a then bitlen \<lfloor>a\<rfloor> - 1 else - bitlen (\<lceil>1 / a\<rceil> - 1))"

definition round_half_even :: "rat \<Rightarrow> int" where
  "round_half_even v =
     (let f = \<lfloor>v\<rfloor>; r = v - of_int f
      in if r < 1 / 2 then f else if 1 / 2 < r then f + 1 else if even f then f else f + 1)"

definition fl64 :: "rat \<Rightarrow> float64" where
  "fl64 x =
     (if x = 0 then Fin 0
      else let a = \<bar>x\<bar>; e0 = floor_log2 a
           in if 1024 \<le> e0 then (if 0 < x then PInf else NInf)
              else let e = max e0 (- 1022);
                       n = round_half_even (a / pow2 (e - 52))
                   in if e = 1023 \<and> n = 2 ^ 53 then (if 0 < x then PInf else NInf)
                      else Fin (sgn x * (of_int n * pow2 (e - 52))))"

definition float64_of_int :: "int \<Rightarrow> float64" where
  "float64_of_int i = fl64 (of_int i)"

fun fneg :: "float64 \<Rightarrow> float64" where
  "fneg (Fin a) = Fin (- a)"
| "fneg PInf = NInf"
| "fneg NInf = PInf"
| "fneg NaN = NaN"

definition fadd :: "float64 \<Rightarrow> float64 \<Rightarrow> float64" where
  "fadd x y =
     (if x = NaN \<or> y = NaN then NaN
      else case (x, y) of
             (Fin a, Fin b) \<Rightarrow> fl64 (a + b)
           | (Fin a, _) \<Rightarrow> y
           | (_, Fin b) \<Rightarrow> x
           | _ \<Rightarrow> if x = y then x else NaN)"

definition fsub :: "float64 \<Rightarrow> float64 \<Rightarrow> float64" where
  "fsub a b = fadd a (fneg b)"

text \<open>The sign of a value, zero counting as positive: \<open>True\<close> is negative.\<close>

definition fsign :: "float64 \<Rightarrow> bool" where
  "fsign x = (case x of Fin a \<Rightarrow> a < 0 | NInf \<Rightarrow> True | _ \<Rightarrow> False)"

definition finf :: "bool \<Rightarrow> float64" where
  "finf neg = (if neg then NInf else PInf)"

definition fmul :: "float64 \<Rightarrow> float64 \<Rightarrow> float64" where
  "fmul x y =
     (if x = NaN \<or> y = NaN then NaN
      else case (x, y) of
             (Fin a, Fin b) \<Rightarrow> fl64 (a * b)
           | _ \<Rightarrow> if x = Fin 0 \<or> y = Fin 0 then NaN else finf (fsign x \<noteq> fsign y))"

definition fdiv :: "float64 \<Rightarrow> float64 \<Rightarrow> float64" where
  "fdiv x y =
     (if x = NaN \<or> y = NaN then NaN
      else case (x, y) of
             (Fin a, Fin b) \<Rightarrow>
               if b = 0 then (if a = 0 then NaN else finf (a < 0)) else fl64 (a / b)
           | (Fin a, _) \<Rightarrow> Fin 0
           | (_, Fin b) \<Rightarrow> finf (fsign x \<noteq> fsign y)
           | _ \<Rightarrow> NaN)"

definition flt :: "float64 \<Rightarrow> float64 \<Rightarrow> bool" where
  "flt x y =
     (case (x, y) of
        (Fin a, Fin b) \<Rightarrow> a < b
      | (Fin a, PInf) \<Rightarrow> True
      | (NInf, Fin b) \<Rightarrow> True
      | (NInf, PInf) \<Rightarrow> True
      | _ \<Rightarrow> False)"

text \<open>
  The conversions \<^verbatim>\<open>int(f)\<close> and \<^verbatim>\<open>int64(f)\<close> discard the fraction (truncation towards
  zero).  For a value that the integer type cannot represent Go leaves the result to the
  implementation; the model returns what the amd64 conversion instruction returns there.
\<close>

definition trunc_rat :: "rat \<Rightarrow> int" where
  "trunc_rat x = (if 0 \<le> x then \<lfloor>x\<rfloor> else \<lceil>x\<rceil>)"

fun int_of_float64 :: "float64 \<Rightarrow> int" where
  "int_of_float64 (Fin a) = (if in_int64 (trunc_rat a) then trunc_rat a else - (2 ^ 63))"
| "int_of_float64 _ = - (2 ^ 63)"

section \<open>The library functions the parser calls\<close>

subsection \<open>strconv\<close>

datatype num_error = ErrSyntax | ErrRange

definition lower :: "nat \<Rightarrow> nat" where
  "lower c = (if (c div 32) mod 2 = 0 then c + 32 else c)"

text \<open>The value of a digit character as \<^verbatim>\<open>ParseUint\<close> reads it, before the base check.\<close>

definition digit_val :: "char \<Rightarrow> int option" where
  "digit_val ch =
     (let c = (of_char ch :: nat)
      in if 48 \<le> c \<and> c \<le> 57 then Some (int c - 48)
         else if 97 \<le> lower c \<and> lower c \<le> 122 then Some (int (lower c) - 97 + 10)
         else None)"

text \<open>
  The digit loop of \<^verbatim>\<open>ParseUint(s, base, bitSize)\<close> for an explicit base: a character
  that is no digit of the base is a syntax error, a value above \<open>maxVal\<close> a range error
  that returns \<open>maxVal\<close>.
\<close>

fun ParseUint_loop :: "int \<Rightarrow> int \<Rightarrow> int \<Rightarrow> string \<Rightarrow> int \<times> num_error option" where
  "ParseUint_loop base maxVal n [] = (n, None)"
| "ParseUint_loop base maxVal n (ch # cs) =
     (case digit_val ch of
        None \<Rightarrow> (0, Some ErrSyntax)
      | Some d \<Rightarrow>
          if base \<le> d then (0, Some ErrSyntax)
          else if (2 ^ 64 - 1) div base + 1 \<le> n then (maxVal, Some ErrRange)
          else if 2 ^ 64 - 1 < n * base + d \<or> maxVal < n * base + d
               then (maxVal, Some ErrRange)
          else ParseUint_loop base maxVal (n * base + d) cs)"

definition ParseUint :: "string \<Rightarrow> int \<Rightarrow> nat \<Rightarrow> int \<times> num_error option" where
  "ParseUint s base bitSize =
     (if s = [] then (0, Some ErrSyntax)
      else ParseUint_loop base (2 ^ (if bitSize = 0 then 64 else bitSize) - 1) 0 s)"

definition ParseInt :: "string \<Rightarrow> int \<Rightarrow> nat \<Rightarrow> int \<times> num_error option" where
  "ParseInt s base bitSize =
     (if s = [] then (0, Some ErrSyntax)
      else let neg = (hd s = CHR ''-'');
               s1 = (if hd s = CHR ''+'' \<or> hd s = CHR ''-'' then tl s else s);
               (un, err) = ParseUint s1 base bitSize;
               cutoff = 2 ^ ((if bitSize = 0 then 64 else bitSize) - 1)
           in if err = Some ErrSyntax then (0, err)
              else if \<not> neg \<and> cutoff \<le> un then (cutoff - 1, Some ErrRange)
              else if neg \<and> cutoff < un then (- cutoff, Some ErrRange)
              else (if neg then - un else un, None))"

text \<open>\<^verbatim>\<open>Atoi(s)\<close> is \<^verbatim>\<open>ParseInt(s, 10, 0)\<close>; its fast path for short strings computes the same.\<close>

definition Atoi :: "string \<Rightarrow> int \<times> num_error option" where
  "Atoi s = ParseInt s 10 0"

text \<open>
  \<^verbatim>\<open>ParseFloat(s, 64)\<close> on the strings that the first group of the line pattern admits
  (decimal digits and dots): digits with at most one dot and at least one digit denote the
  decimal number, correctly rounded; everything else is a syntax error, with value 0.
\<close>

definition is_digit :: "char \<Rightarrow> bool" where
  "is_digit ch \<longleftrightarrow> 48 \<le> (of_char ch :: nat) \<and> (of_char ch :: nat) \<le> 57"

fun dec_val :: "int \<Rightarrow> string \<Rightarrow> int" where
  "dec_val n [] = n"
| "dec_val n (ch # cs) = dec_val (n * 10 + (int (of_char ch) - 48)) cs"

definition ParseFloat :: "string \<Rightarrow> float64 \<times> num_error option" where
  "ParseFloat s =
     (let ip = takeWhile is_digit s; r = dropWhile is_digit s;
          fp = (if r \<noteq> [] \<and> hd r = CHR ''.'' then takeWhile is_digit (tl r) else []);
          rest = (if r \<noteq> [] \<and> hd r = CHR ''.'' then dropWhile is_digit (tl r) else r)
      in if ip @ fp = [] \<or> rest \<noteq> [] then (Fin 0, Some ErrSyntax)
         else case fl64 (of_int (dec_val 0 (ip @ fp)) / of_int (10 ^ length fp)) of
                Fin v \<Rightarrow> (Fin v, None)
              | w \<Rightarrow> (w, Some ErrRange))"

subsection \<open>strings\<close>

text \<open>\<^verbatim>\<open>strings.Split(s, sep)\<close> for a separator of one character.\<close>

fun Split :: "string \<Rightarrow> char \<Rightarrow> string list" where
  "Split [] sep = [[]]"
| "Split (ch # cs) sep =
     (if ch = sep then [] # Split cs sep
      else case Split cs sep of p # ps \<Rightarrow> (ch # p) # ps | [] \<Rightarrow> [[ch]])"

subsection \<open>regexp\<close>

text \<open>
  A pattern is a sequence of items.  Matching is the backtracking search whose first
  success Go's \<^verbatim>\<open>regexp\<close> returns (leftmost-first): a greedy repetition tries the longer
  match first, a lazy one the shorter, an alternation its left branch.  Repetition is of
  single-character classes, which is all that the patterns of this program need.
  The captures are the start and end offsets of the groups.
\<close>

datatype item =
    One "char \<Rightarrow> bool"
  | Many "char \<Rightarrow> bool"
  | Lazy "char \<Rightarrow> bool"
  | Open nat
  | Close nat
  | Alt "item list" "item list"

type_synonym caps = "nat \<Rightarrow> nat \<times> nat"

function rx_match :: "item list \<Rightarrow> string \<Rightarrow> nat \<Rightarrow> caps \<Rightarrow> caps option" where
  "rx_match [] s pos c = Some c"
| "rx_match (One p # r) s pos c =
     (case s of
        [] \<Rightarrow> None
      | ch # cs \<Rightarrow> if p ch then rx_match r cs (Suc pos) c else None)"
| "rx_match (Many p # r) s pos c =
     (case s of
        [] \<Rightarrow> rx_match r s pos c
      | ch # cs \<Rightarrow>
          if p ch
          then (case rx_match (Many p # r) cs (Suc pos) c of
                  Some m \<Rightarrow> Some m
                | None \<Rightarrow> rx_match r s pos c)
          else rx_match r s pos c)"
| "rx_match (Lazy p # r) s pos c =
     (case rx_match r s pos c of
        Some m \<Rightarrow> Some m
      | None \<Rightarrow>
          (case s of
             [] \<Rightarrow> None
           | ch # cs \<Rightarrow> if p ch then rx_match (Lazy p # r) cs (Suc pos) c else None))"
| "rx_match (Open g # r) s pos c = rx_match r s pos (c(g := (pos, snd (c g))))"
| "rx_match (Close g # r) s pos c = rx_match r s pos (c(g := (fst (c g), pos)))"
| "rx_match (Alt a b # r) s pos c =
     (case rx_match (a @ r) s pos c of
        Some m \<Rightarrow> Some m
      | None \<Rightarrow> rx_match (b @ r) s pos c)"
  by pat_completeness auto
termination
  by (relation "measures [\<lambda>(r, s, pos, c). size_list size r, \<lambda>(r, s, pos, c). length s]")
     auto

text \<open>The unanchored search: the first start offset, from the left, at which the pattern matches.\<close>

fun rx_search :: "item list \<Rightarrow> string \<Rightarrow> nat \<Rightarrow> caps option" where
  "rx_search r [] pos = rx_match r [] pos (\<lambda>g. (0, 0))"
| "rx_search r (ch # cs) pos =
     (case rx_match r (ch # cs) pos (\<lambda>g. (0, 0)) of
        Some m \<Rightarrow> Some m
      | None \<Rightarrow> rx_search r cs (Suc pos))"

definition substr :: "string \<Rightarrow> nat \<times> nat \<Rightarrow> string" where
  "substr s se = take (snd se - fst se) (drop (fst se) s)"

text \<open>
  \<^verbatim>\<open>re.FindStringSubmatch(line)\<close> for a pattern with \<open>n\<close> groups: the text of the whole
  match followed by the texts of the groups, or the empty list for Go's \<^verbatim>\<open>nil\<close> when the
  line has no match.
\<close>

definition FindStringSubmatch :: "item list \<Rightarrow> nat \<Rightarrow> string \<Rightarrow> string list" where
  "FindStringSubmatch re n line =
     (case rx_search (Open 0 # re @ [Close 0]) line 0 of
        None \<Rightarrow> []
      | Some m \<Rightarrow> map (\<lambda>g. substr line (m g)) [0..<Suc n])"

text \<open>The character classes of RE2 syntax that the line pattern uses.\<close>

definition cls_space :: "char \<Rightarrow> bool" where
  "cls_space ch \<longleftrightarrow> ch \<in> set [CHR 0x09, CHR 0x0A, CHR 0x0C, CHR 0x0D, CHR '' '']"

definition cls_word :: "char \<Rightarrow> bool" where
  "cls_word ch \<longleftrightarrow>
     (let c = (of_char ch :: nat)
      in (48 \<le> c \<and> c \<le> 57) \<or> (65 \<le> c \<and> c \<le> 90) \<or> (97 \<le> c \<and> c \<le> 122) \<or> c = 95)"

definition cls_hex :: "char \<Rightarrow> bool" where
  "cls_hex ch \<longleftrightarrow>
     (let c = (of_char ch :: nat)
      in (48 \<le> c \<and> c \<le> 57) \<or> (65 \<le> c \<and> c \<le> 70) \<or> (97 \<le> c \<and> c \<le> 102))"

definition cls_digit_dot :: "char \<Rightarrow> bool" where
  "cls_digit_dot ch \<longleftrightarrow> is_digit ch \<or> ch = CHR ''.''"

definition cls_any :: "char \<Rightarrow> bool" where
  "cls_any ch \<longleftrightarrow> ch \<noteq> CHR 0x0A"

definition lit :: "string \<Rightarrow> item list" where
  "lit s = map (\<lambda>ch. One (\<lambda>x. x = ch)) s"

text \<open>
  The line pattern of \<^verbatim>\<open>parseRawEvents\<close>:
  \<^verbatim>\<open>\[\s*([\d.]+)\].*?(EV_\w+)\s+(\w+)\s+([0-9a-fA-F]+|DOWN|UP)\<close>
\<close>

definition line_re :: "item list" where
  "line_re =
     lit ''['' @ [Many cls_space, Open 1, One cls_digit_dot, Many cls_digit_dot, Close 1] @
     lit '']'' @ [Lazy cls_any, Open 2] @ lit ''EV_'' @ [One cls_word, Many cls_word, Close 2,
     One cls_space, Many cls_space, Open 3, One cls_word, Many cls_word, Close 3,
     One cls_space, Many cls_space, Open 4,
     Alt [One cls_hex, Many cls_hex] [Alt (lit ''DOWN'') (lit ''UP'')],
     Close 4]"

section \<open>Touch scripts and recording sessions\<close>

text \<open>
  Modelled from the spec: the declarations of the structs \<^verbatim>\<open>TouchEvent\<close>, \<^verbatim>\<open>TouchScript\<close>
  and \<^verbatim>\<open>TouchRecordingSession\<close> are not among the sources.  The fields are the ones that
  the functions of the touch engine read and write, with the types they are used at;
  \<^verbatim>\<open>StartTime\<close>, a \<^verbatim>\<open>time.Time\<close>, is kept as a number, and the session's \<^verbatim>\<open>DeviceID\<close> and
  \<^verbatim>\<open>Resolution\<close> carry the prefix \<open>Session\<close> to tell them from the script's.
\<close>

record TouchEvent =
  Timestamp :: int
  Type :: string
  X :: int
  Y :: int
  X2 :: int
  Y2 :: int
  Duration :: int

record TouchScript =
  DeviceID :: string
  Name :: string
  Resolution :: string
  CreatedAt :: string
  Events :: "TouchEvent list"

record TouchRecordingSession =
  SessionDeviceID :: string
  StartTime :: int
  RawEvents :: "string list"
  SessionResolution :: string
  InputDevice :: string
  MaxX :: int
  MaxY :: int
  MinX :: int
  MinY :: int

section \<open>parseRawEvents\<close>

text \<open>
  The locals that stay fixed during the loop over the raw lines: the screen size parsed from
  the resolution and the coordinate ranges after the fallback for a degenerate range.
\<close>

record ranges =
  screenW :: int
  screenH :: int
  minX :: int
  maxX :: int
  minY :: int
  maxY :: int

text \<open>The locals that the loop updates, and the events appended to the script so far.\<close>

record pstate =
  firstTimestamp :: float64
  currentX :: int
  currentY :: int
  touchStartTime :: float64
  touchStartX :: int
  touchStartY :: int
  tracking :: bool
  events :: "TouchEvent list"

text \<open>The closure \<^verbatim>\<open>round := func(val float64) int { return int(val + 0.5) }\<close>.\<close>

definition round_go :: "float64 \<Rightarrow> int" where
  "round_go val = int_of_float64 (fadd val (Fin (1 / 2)))"

text \<open>
  The expression \<^verbatim>\<open>round(float64(raw-min) * float64(screenDim) / float64(max-min))\<close>, which
  each finger-up branch writes out for its four coordinates.
\<close>

definition scale_coord :: "int \<Rightarrow> int \<Rightarrow> int \<Rightarrow> int \<Rightarrow> int" where
  "scale_coord raw lo hi screenDim =
     round_go (fdiv (fmul (float64_of_int (s64 (raw - lo))) (float64_of_int screenDim))
                    (float64_of_int (s64 (hi - lo))))"

text \<open>The zero value \<^verbatim>\<open>TouchEvent{Timestamp: relativeMs}\<close>.\<close>

definition new_event :: "int \<Rightarrow> TouchEvent" where
  "new_event relativeMs =
     \<lparr>Timestamp = relativeMs, Type = [], X = 0, Y = 0, X2 = 0, Y2 = 0, Duration = 0\<rparr>"

text \<open>
  The finger-up branch of the case \<^verbatim>\<open>ABS_MT_TRACKING_ID\<close> (value \<open>-1\<close> while tracking).
  The \<^verbatim>\<open>continue\<close> for unknown coordinates keeps the assignments made before it.
\<close>

definition finger_up_tracking_id :: "ranges \<Rightarrow> float64 \<Rightarrow> int \<Rightarrow> pstate \<Rightarrow> pstate" where
  "finger_up_tracking_id e timestamp relativeMs st =
     (let duration = int_of_float64 (fmul (fsub timestamp (touchStartTime st)) (Fin 1000));
          st1 = st\<lparr>tracking := False\<rparr>;
          st2 = (if touchStartX st1 = - 1 then st1\<lparr>touchStartX := currentX st1\<rparr> else st1);
          st3 = (if touchStartY st2 = - 1 then st2\<lparr>touchStartY := currentY st2\<rparr> else st2)
      in if touchStartX st3 = - 1 \<or> touchStartY st3 = - 1 \<or> currentX st3 = - 1 \<or> currentY st3 = - 1
         then st3
         else
           let scaledStartX = (if minX e < maxX e
                               then scale_coord (touchStartX st3) (minX e) (maxX e) (screenW e)
                               else touchStartX st3);
               scaledEndX = (if minX e < maxX e
                             then scale_coord (currentX st3) (minX e) (maxX e) (screenW e)
                             else currentX st3);
               scaledStartY = (if minY e < maxY e
                               then scale_coord (touchStartY st3) (minY e) (maxY e) (screenH e)
                               else touchStartY st3);
               scaledEndY = (if minY e < maxY e
                             then scale_coord (currentY st3) (minY e) (maxY e) (screenH e)
                             else currentY st3);
               dx = s64 (scaledEndX - scaledStartX);
               dy = s64 (scaledEndY - scaledStartY);
               distance = s64 (s64 (dx * dx) + s64 (dy * dy));
               event = new_event relativeMs;
               event' = (if distance < 2500 \<and> duration < 300
                         then event\<lparr>Type := ''tap'', X := scaledStartX, Y := scaledStartY\<rparr>
                         else event\<lparr>Type := ''swipe'', X := scaledStartX, Y := scaledStartY,
                                     X2 := scaledEndX, Y2 := scaledEndY, Duration := duration\<rparr>)
           in st3\<lparr>events := events st3 @ [event']\<rparr>)"

text \<open>The finger-up branch of the case \<^verbatim>\<open>BTN_TOUCH\<close> (value \<open>0\<close> while tracking).\<close>

definition finger_up_btn_touch :: "ranges \<Rightarrow> float64 \<Rightarrow> int \<Rightarrow> pstate \<Rightarrow> pstate" where
  "finger_up_btn_touch e timestamp relativeMs st =
     (let duration = int_of_float64 (fmul (fsub timestamp (touchStartTime st)) (Fin 1000));
          st1 = st\<lparr>tracking := False\<rparr>;
          st2 = (if touchStartX st1 = - 1 then st1\<lparr>touchStartX := currentX st1\<rparr> else st1);
          st3 = (if touchStartY st2 = - 1 then st2\<lparr>touchStartY := currentY st2\<rparr> else st2)
      in if touchStartX st3 = - 1 \<or> touchStartY st3 = - 1 \<or> currentX st3 = - 1 \<or> currentY st3 = - 1
         then st3
         else
           let scaledStartX = (if minX e < maxX e
                               then scale_coord (touchStartX st3) (minX e) (maxX e) (screenW e)
                               else touchStartX st3);
               scaledEndX = (if minX e < maxX e
                             then scale_coord (currentX st3) (minX e) (maxX e) (screenW e)
                             else currentX st3);
               scaledStartY = (if minY e < maxY e
                               then scale_coord (touchStartY st3) (minY e) (maxY e) (screenH e)
                               else touchStartY st3);
               scaledEndY = (if minY e < maxY e
                             then scale_coord (currentY st3) (minY e) (maxY e) (screenH e)
                             else currentY st3);
               dx = s64 (scaledEndX - scaledStartX);
               dy = s64 (scaledEndY - scaledStartY);
               distance = s64 (s64 (dx * dx) + s64 (dy * dy));
               event = new_event relativeMs;
               event' = (if distance < 2500 \<and> duration < 300
                         then event\<lparr>Type := ''tap'', X := scaledStartX, Y := scaledStartY\<rparr>
                         else event\<lparr>Type := ''swipe'', X := scaledStartX, Y := scaledStartY,
                                     X2 := scaledEndX, Y2 := scaledEndY, Duration := duration\<rparr>)
           in st3\<lparr>events := events st3 @ [event']\<rparr>)"

text \<open>The finger-down branch, the same assignments in both cases.\<close>

definition finger_down :: "float64 \<Rightarrow> pstate \<Rightarrow> pstate" where
  "finger_down timestamp st =
     st\<lparr>tracking := True, touchStartTime := timestamp, touchStartX := - 1, touchStartY := - 1\<rparr>"

text \<open>
  The body of the loop for a line that the pattern matches, from the texts of its four
  groups.  A value that \<^verbatim>\<open>ParseUint\<close> rejects ends the iteration, after the first timestamp
  has been set.
\<close>

definition process_match :: "ranges \<Rightarrow> pstate \<Rightarrow> string \<Rightarrow> string \<Rightarrow> string \<Rightarrow> string \<Rightarrow> pstate" where
  "process_match e st m1 m2 m3 m4 =
     (let timestamp = fst (ParseFloat m1);
          evType = m2;
          evCode = m3;
          st0 = (if flt (firstTimestamp st) (Fin 0) then st\<lparr>firstTimestamp := timestamp\<rparr> else st);
          relativeMs = int_of_float64 (fmul (fsub timestamp (firstTimestamp st0)) (Fin 1000));
          evValue = (if m4 = ''DOWN'' then ''00000001''
                     else if m4 = ''UP'' then ''00000000'' else m4)
      in if evType = ''EV_ABS''
         then (case ParseUint evValue 16 32 of
                 (uValue, Some err) \<Rightarrow> st0
               | (uValue, None) \<Rightarrow>
                   let value = int32_of_uint uValue
                   in if evCode = ''ABS_MT_TRACKING_ID''
                      then (if value \<noteq> - 1 \<and> \<not> tracking st0 then finger_down timestamp st0
                            else if value = - 1 \<and> tracking st0
                                 then finger_up_tracking_id e timestamp relativeMs st0
                            else st0)
                      else if evCode = ''BTN_TOUCH''
                      then (if value = 1 \<and> \<not> tracking st0 then finger_down timestamp st0
                            else if value = 0 \<and> tracking st0
                                 then finger_up_btn_touch e timestamp relativeMs st0
                            else st0)
                      else if evCode = ''ABS_MT_POSITION_X''
                      then (let st1 = st0\<lparr>currentX := value\<rparr>
                            in if tracking st1 \<and> touchStartX st1 = - 1
                               then st1\<lparr>touchStartX := currentX st1\<rparr> else st1)
                      else if evCode = ''ABS_MT_POSITION_Y''
                      then (let st1 = st0\<lparr>currentY := value\<rparr>
                            in if tracking st1 \<and> touchStartY st1 = - 1
                               then st1\<lparr>touchStartY := currentY st1\<rparr> else st1)
                      else st0)
         else st0)"

definition process_line :: "ranges \<Rightarrow> pstate \<Rightarrow> string \<Rightarrow> pstate" where
  "process_line e st line =
     (let matches = FindStringSubmatch line_re 4 line
      in if length matches < 5 then st
         else process_match e st (matches ! 1) (matches ! 2) (matches ! 3) (matches ! 4))"

definition init_pstate :: pstate where
  "init_pstate =
     \<lparr>firstTimestamp = Fin (- 1), currentX = - 1, currentY = - 1, touchStartTime = Fin (- 1),
      touchStartX = - 1, touchStartY = - 1, tracking = False, events = []\<rparr>"

text \<open>The screen size: \<open>1080x1920\<close> unless the resolution splits into two parts at \<open>x\<close>.\<close>

definition screen_size :: "string \<Rightarrow> int \<times> int" where
  "screen_size res =
     (case Split res CHR ''x'' of
        [a, b] \<Rightarrow> (fst (Atoi a), fst (Atoi b))
      | _ \<Rightarrow> (1080, 1920))"

definition effective_ranges :: "TouchRecordingSession \<Rightarrow> ranges" where
  "effective_ranges session =
     (let (w, h) = screen_size (SessionResolution session);
          e0 = \<lparr>screenW = w, screenH = h, minX = MinX session, maxX = MaxX session,
                minY = MinY session, maxY = MaxY session\<rparr>;
          e1 = (if maxX e0 = minX e0 then e0\<lparr>maxX := screenW e0, minX := 0\<rparr> else e0);
          e2 = (if maxY e1 = minY e1 then e1\<lparr>maxY := screenH e1, minY := 0\<rparr> else e1)
      in e2)"

text \<open>
  \<^verbatim>\<open>parseRawEvents\<close>; the parameter \<open>rfc3339\<close> stands for \<^verbatim>\<open>Format(time.RFC3339)\<close> of the
  time library.
\<close>

definition parseRawEvents :: "(int \<Rightarrow> string) \<Rightarrow> TouchRecordingSession \<Rightarrow> TouchScript" where
  "parseRawEvents rfc3339 session =
     (let script = \<lparr>DeviceID = SessionDeviceID session, Name = [],
                     Resolution = SessionResolution session,
                     CreatedAt = rfc3339 (StartTime session), Events = []\<rparr>
      in if RawEvents session = [] then script
         else script\<lparr>Events :=
                events (foldl (process_line (effective_ranges session)) init_pstate
                          (RawEvents session))\<rparr>)"

section \<open>What the specification says of a stroke\<close>

text \<open>
  The position at which a stroke started, as its finger-up takes it: the position seeded
  after the finger-down or, when none was reported since, the current position.
\<close>

definition stroke_start_x :: "pstate \<Rightarrow> int" where
  "stroke_start_x st = (if touchStartX st = - 1 then currentX st else touchStartX st)"

definition stroke_start_y :: "pstate \<Rightarrow> int" where
  "stroke_start_y st = (if touchStartY st = - 1 then currentY st else touchStartY st)"

definition coords_known :: "pstate \<Rightarrow> bool" where
  "coords_known st \<longleftrightarrow>
     stroke_start_x st \<noteq> - 1 \<and> stroke_start_y st \<noteq> - 1 \<and> currentX st \<noteq> - 1 \<and> currentY st \<noteq> - 1"

text \<open>A raw coordinate in screen space: scaled, or passed through when the range is degenerate.\<close>

definition scaled_x :: "ranges \<Rightarrow> int \<Rightarrow> int" where
  "scaled_x e raw = (if minX e < maxX e then scale_coord raw (minX e) (maxX e) (screenW e) else raw)"

definition scaled_y :: "ranges \<Rightarrow> int \<Rightarrow> int" where
  "scaled_y e raw = (if minY e < maxY e then scale_coord raw (minY e) (maxY e) (screenH e) else raw)"

text \<open>The milliseconds from one device timestamp to another, as the loop computes them.\<close>

definition ms_between :: "float64 \<Rightarrow> float64 \<Rightarrow> int" where
  "ms_between t0 t1 = int_of_float64 (fmul (fsub t1 t0) (Fin 1000))"

text \<open>The timestamp of a matched line and the first timestamp after that line.\<close>

definition line_time :: "string \<Rightarrow> float64" where
  "line_time m1 = fst (ParseFloat m1)"

definition first_time :: "pstate \<Rightarrow> string \<Rightarrow> float64" where
  "first_time st m1 = (if flt (firstTimestamp st) (Fin 0) then line_time m1 else firstTimestamp st)"

text \<open>The signed 32-bit value of the fourth group, when \<^verbatim>\<open>ParseUint\<close> accepts it.\<close>

definition ev_value :: "string \<Rightarrow> int option" where
  "ev_value m4 =
     (case ParseUint (if m4 = ''DOWN'' then ''00000001''
                      else if m4 = ''UP'' then ''00000000'' else m4) 16 32 of
        (u, None) \<Rightarrow> Some (int32_of_uint u)
      | (u, Some err) \<Rightarrow> None)"

text \<open>The squared Euclidean displacement between two points.\<close>

definition sq_displacement :: "int \<Rightarrow> int \<Rightarrow> int \<Rightarrow> int \<Rightarrow> int" where
  "sq_displacement x1 y1 x2 y2 = (x2 - x1) ^ 2 + (y2 - y1) ^ 2"

text \<open>
  The classification in the specification's words: a tap at the start point if the squared
  displacement is below 2500 and the duration below 300 ms, otherwise a swipe from the start
  to the end point that carries the duration.
\<close>

definition spec_gesture :: "int \<Rightarrow> int \<Rightarrow> int \<Rightarrow> int \<Rightarrow> int \<Rightarrow> int \<Rightarrow> TouchEvent" where
  "spec_gesture ts sx sy ex ey dur =
     (if sq_displacement sx sy ex ey < 2500 \<and> dur < 300
      then \<lparr>Timestamp = ts, Type = ''tap'', X = sx, Y = sy, X2 = 0, Y2 = 0, Duration = 0\<rparr>
      else \<lparr>Timestamp = ts, Type = ''swipe'', X = sx, Y = sy, X2 = ex, Y2 = ey, Duration = dur\<rparr>)"

text \<open>The event that closing the stroke of a state emits, from the line with timestamp \<open>m1\<close>.\<close>

definition stroke_event :: "ranges \<Rightarrow> pstate \<Rightarrow> string \<Rightarrow> TouchEvent" where
  "stroke_event e st m1 =
     spec_gesture (ms_between (first_time st m1) (line_time m1))
       (scaled_x e (stroke_start_x st)) (scaled_y e (stroke_start_y st))
       (scaled_x e (currentX st)) (scaled_y e (currentY st))
       (ms_between (touchStartTime st) (line_time m1))"

text \<open>The squared displacement of the stroke of a state, in screen space.\<close>

definition stroke_sq_displacement :: "ranges \<Rightarrow> pstate \<Rightarrow> int" where
  "stroke_sq_displacement e st =
     sq_displacement (scaled_x e (stroke_start_x st)) (scaled_y e (stroke_start_y st))
       (scaled_x e (currentX st)) (scaled_y e (currentY st))"

section \<open>The selector engine\<close>

text \<open>
  Modelled from the spec: the declarations of \<^verbatim>\<open>UINode\<close> and \<^verbatim>\<open>ElementSelector\<close> are not among
  the sources.  A node has the attributes that the selector functions read (text, resource
  id, class, content description, bounds) and its children in order; a selector has a type,
  a value and a match index.  The field \<^verbatim>\<open>Type\<close> of the selector is written \<open>SelectorType\<close>.
\<close>

datatype UINode =
  UINode (Text: string) (ResourceID: string) (Class: string) (ContentDesc: string)
    (Bounds: string) (Nodes: "UINode list")

record ElementSelector =
  SelectorType :: string
  Value :: string
  Index :: int

datatype go_panic = IndexOutOfRange

text \<open>\<^verbatim>\<open>strings.HasPrefix\<close>, \<^verbatim>\<open>strings.HasSuffix\<close> and \<^verbatim>\<open>strings.Contains\<close>.\<close>

definition HasPrefix :: "string \<Rightarrow> string \<Rightarrow> bool" where
  "HasPrefix s p \<longleftrightarrow> take (length p) s = p"

definition HasSuffix :: "string \<Rightarrow> string \<Rightarrow> bool" where
  "HasSuffix s suffix \<longleftrightarrow> length suffix \<le> length s \<and> drop (length s - length suffix) s = suffix"

fun Contains :: "string \<Rightarrow> string \<Rightarrow> bool" where
  "Contains [] sub = (sub = [])"
| "Contains (ch # cs) sub = (HasPrefix (ch # cs) sub \<or> Contains cs sub)"

text \<open>\<^verbatim>\<open>strings.TrimSpace\<close>, for the white space of ASCII.\<close>

definition is_space :: "char \<Rightarrow> bool" where
  "is_space ch \<longleftrightarrow> ch \<in> set [CHR 0x09, CHR 0x0A, CHR 0x0B, CHR 0x0C, CHR 0x0D, CHR '' '']"

definition TrimSpace :: "string \<Rightarrow> string" where
  "TrimSpace s = rev (dropWhile is_space (rev (dropWhile is_space s)))"

text \<open>The nodes of a tree that satisfy a predicate: the node before its children, the children in order.\<close>

fun collectMatchingNodes :: "(UINode \<Rightarrow> bool) \<Rightarrow> UINode \<Rightarrow> UINode list" where
  "collectMatchingNodes predicate (UINode t r c d b ns) =
     (if predicate (UINode t r c d b ns) then [UINode t r c d b ns] else []) @
     concat (map (collectMatchingNodes predicate) ns)"

text \<open>
  \<^verbatim>\<open>if index < len(nodes) { return nodes[index] }; return nil\<close>: a negative index passes the
  test and the index expression panics.
\<close>

definition element_at :: "UINode list \<Rightarrow> int \<Rightarrow> go_panic + UINode option" where
  "element_at nodes index =
     (if index < int (length nodes)
      then (if index < 0 then Inl IndexOutOfRange else Inr (Some (nodes ! nat index)))
      else Inr None)"

definition findElementByText :: "UINode \<Rightarrow> string \<Rightarrow> int \<Rightarrow> go_panic + UINode option" where
  "findElementByText tree text index =
     element_at (collectMatchingNodes (\<lambda>n. Text n = text \<or> ContentDesc n = text) tree) index"

definition findElementByID :: "UINode \<Rightarrow> string \<Rightarrow> int \<Rightarrow> go_panic + UINode option" where
  "findElementByID tree ident index =
     element_at (collectMatchingNodes
       (\<lambda>n. ResourceID n = ident \<or> HasSuffix (ResourceID n) ('':id/'' @ ident)) tree) index"

definition findElementByDesc :: "UINode \<Rightarrow> string \<Rightarrow> int \<Rightarrow> go_panic + UINode option" where
  "findElementByDesc tree desc index =
     element_at (collectMatchingNodes (\<lambda>n. ContentDesc n = desc) tree) index"

definition findElementByClass :: "UINode \<Rightarrow> string \<Rightarrow> int \<Rightarrow> go_panic + UINode option" where
  "findElementByClass tree cls index =
     element_at (collectMatchingNodes (\<lambda>n. Class n = cls) tree) index"

definition findElementByContains :: "UINode \<Rightarrow> string \<Rightarrow> int \<Rightarrow> go_panic + UINode option" where
  "findElementByContains tree text index =
     element_at (collectMatchingNodes
       (\<lambda>n. Contains (Text n) text \<or> Contains (ContentDesc n) text) tree) index"

definition findElementByAdvanced ::
  "(UINode \<Rightarrow> string \<Rightarrow> bool) \<Rightarrow> UINode \<Rightarrow> string \<Rightarrow> int \<Rightarrow> go_panic + UINode option" where
  "findElementByAdvanced matchAdvancedQuery tree query index =
     element_at (collectMatchingNodes (\<lambda>n. matchAdvancedQuery n query) tree) index"

text \<open>
  \<^verbatim>\<open>FindElementBySelector\<close>.  Three functions that it calls are parameters: the XPath search
  and the point lookup are not among the sources, and the matcher of the advanced query
  rests on an attribute reader that is not.  The tree and the selector are pointers:
  \<open>None\<close> is \<^verbatim>\<open>nil\<close>.
\<close>

definition FindElementBySelector ::
  "(UINode \<Rightarrow> string \<Rightarrow> UINode list) \<Rightarrow> (UINode \<Rightarrow> int \<Rightarrow> int \<Rightarrow> UINode option) \<Rightarrow>
   (UINode \<Rightarrow> string \<Rightarrow> bool) \<Rightarrow> UINode option \<Rightarrow> ElementSelector option \<Rightarrow>
   go_panic + UINode option" where
  "FindElementBySelector SearchElementsXPath FindElementAtPoint matchAdvancedQuery tree selector =
     (case (tree, selector) of
        (Some r, Some sel) \<Rightarrow>
          if SelectorType sel = ''text'' then findElementByText r (Value sel) (Index sel)
          else if SelectorType sel = ''id'' then findElementByID r (Value sel) (Index sel)
          else if SelectorType sel = ''desc'' \<or> SelectorType sel = ''description''
          then findElementByDesc r (Value sel) (Index sel)
          else if SelectorType sel = ''class'' then findElementByClass r (Value sel) (Index sel)
          else if SelectorType sel = ''contains''
          then findElementByContains r (Value sel) (Index sel)
          else if SelectorType sel = ''xpath''
          then (let results = SearchElementsXPath r (Value sel)
                in if Index sel < int (length results)
                   then (if Index sel < 0 then Inl IndexOutOfRange
                         else Inr (Some (results ! nat (Index sel))))
                   else Inr None)
          else if SelectorType sel = ''bounds''
          then Inr (Some (UINode [] [] [] [] (Value sel) []))
          else if SelectorType sel = ''coordinates''
          then (case Split (Value sel) CHR '','' of
                  [a, b] \<Rightarrow>
                    Inr (FindElementAtPoint r (fst (Atoi (TrimSpace a))) (fst (Atoi (TrimSpace b))))
                | _ \<Rightarrow> Inr None)
          else if SelectorType sel = ''advanced''
          then findElementByAdvanced matchAdvancedQuery r (Value sel) (Index sel)
          else Inr None
      | _ \<Rightarrow> Inr None)"

text \<open>All nodes of a tree, and what the specification says of a bounds selector.\<close>

definition tree_nodes :: "UINode \<Rightarrow> UINode list" where
  "tree_nodes tree = collectMatchingNodes (\<lambda>n. True) tree"

definition spec_find_by_bounds :: "UINode \<Rightarrow> string \<Rightarrow> int \<Rightarrow> go_panic + UINode option" where
  "spec_find_by_bounds tree v index =
     element_at (collectMatchingNodes (\<lambda>n. Bounds n = v) tree) index"

section \<open>Recording and playback sessions\<close>

text \<open>\<^verbatim>\<open>%d\<close> of \<^verbatim>\<open>fmt.Sprintf\<close> and the integers of the JSON encoder: decimal digits.\<close>

function digits_of :: "nat \<Rightarrow> string" where
  "digits_of n = (if n < 10 then [char_of (48 + n)]
                  else digits_of (n div 10) @ [char_of (48 + n mod 10)])"
  by pat_completeness auto
termination
  by (relation "measure id") auto

declare digits_of.simps [simp del]

definition FormatInt :: "int \<Rightarrow> string" where
  "FormatInt i = (if i < 0 then CHR ''-'' # digits_of (nat (- i)) else digits_of (nat i))"

text \<open>
  The package variables \<^verbatim>\<open>touchRecordCmd\<close>, \<^verbatim>\<open>touchRecordCancel\<close>, \<^verbatim>\<open>touchRecordData\<close> and
  \<^verbatim>\<open>touchPlaybackCancel\<close>, maps keyed by the device id, whose accesses the two mutexes make
  atomic.  A process and a cancellation context are handles (numbers); a context is
  cancelled once its cancel function has been called.  The notifications sent to the
  front end and the commands run on the device are kept in the order of their emission.
\<close>

datatype notification = Notification string string "int list"

record app_state =
  touchRecordCmd :: "string \<rightharpoonup> nat"
  touchRecordCancel :: "string \<rightharpoonup> nat"
  touchRecordData :: "string \<rightharpoonup> TouchRecordingSession"
  touchPlaybackCancel :: "string \<rightharpoonup> nat"
  cancelled :: "nat set"
  next_handle :: nat
  emitted :: "notification list"
  adb_log :: "(string \<times> string) list"

subsection \<open>StartTouchRecording\<close>






text \<open>The critical section of the reading task, for one line of the event stream.\<close>

definition reader_line :: "string \<Rightarrow> string \<Rightarrow> app_state \<Rightarrow> app_state" where
  "reader_line deviceId line st =
     (if Contains line ''EV_''
      then (case touchRecordData st deviceId of
              Some session \<Rightarrow>
                st\<lparr>touchRecordData := (touchRecordData st)
                     (deviceId \<mapsto> session\<lparr>RawEvents := RawEvents session @ [line]\<rparr>)\<rparr>
            | None \<Rightarrow> st)
      else st)"

subsection \<open>Playback\<close>

text \<open>
  The task that \<^verbatim>\<open>PlayTouchScript\<close> launches, as a machine.  Its steps are the points at which
  another task can run in between: the non-blocking test of the context at the head of the
  loop (with the reading of the elapsed time), the wait for the time of the event, the
  execution of the event, and the deferred function.
\<close>

datatype pc = AtSelect nat | AtWait nat | AtRun nat | AtDefer | Finished

record task =
  t_device :: string
  t_ctx :: nat
  t_script :: TouchScript
  t_pc :: pc

definition PlayTouchScript ::
  "string \<Rightarrow> TouchScript \<Rightarrow> app_state \<Rightarrow> string option \<times> app_state \<times> task option" where
  "PlayTouchScript deviceId script st =
     (if touchPlaybackCancel st deviceId \<noteq> None
      then (Some ''playback already in progress'', st, None)
      else let ctx = next_handle st
           in (None,
               st\<lparr>next_handle := Suc (next_handle st),
                  touchPlaybackCancel := (touchPlaybackCancel st)(deviceId \<mapsto> ctx),
                  emitted := emitted st @
                    [Notification ''touch-playback-started'' deviceId
                       [int (length (Events script))]]\<rparr>,
               Some \<lparr>t_device = deviceId, t_ctx = ctx, t_script = script, t_pc = AtSelect 0\<rparr>))"

definition StopTouchPlayback :: "string \<Rightarrow> app_state \<Rightarrow> app_state" where
  "StopTouchPlayback deviceId st =
     (case touchPlaybackCancel st deviceId of
        Some ctx \<Rightarrow>
          st\<lparr>cancelled := insert ctx (cancelled st),
             touchPlaybackCancel := (touchPlaybackCancel st)(deviceId := None)\<rparr>
      | None \<Rightarrow> st)"

definition IsPlayingTouch :: "string \<Rightarrow> app_state \<Rightarrow> bool" where
  "IsPlayingTouch deviceId st \<longleftrightarrow> touchPlaybackCancel st deviceId \<noteq> None"

text \<open>
  What a step of the task reads from outside: the milliseconds elapsed since the start of
  the playback, and whether the timer of the wait has fired (when the context is cancelled
  as well, the \<^verbatim>\<open>select\<close> may take either case).
\<close>

record step_input =
  elapsed_ms :: int
  timer_fires :: bool

definition run_event :: "task \<Rightarrow> nat \<Rightarrow> app_state \<Rightarrow> app_state" where
  "run_event t i st =
     (let event = Events (t_script t) ! i;
          total = int (length (Events (t_script t)));
          progress = Notification ''touch-playback-progress'' (t_device t) [int i + 1, total]
      in if Type event = ''tap''
         then st\<lparr>adb_log := adb_log st @
                   [(t_device t, ''shell input tap '' @ FormatInt (X event) @ '' '' @
                       FormatInt (Y event))],
                 emitted := emitted st @ [progress]\<rparr>
         else if Type event = ''swipe''
         then st\<lparr>adb_log := adb_log st @
                   [(t_device t, ''shell input swipe '' @ FormatInt (X event) @ '' '' @
                       FormatInt (Y event) @ '' '' @ FormatInt (X2 event) @ '' '' @
                       FormatInt (Y2 event) @ '' '' @ FormatInt (Duration event))],
                 emitted := emitted st @ [progress]\<rparr>
         else st)"

definition task_step :: "step_input \<Rightarrow> task \<times> app_state \<Rightarrow> task \<times> app_state" where
  "task_step inp ts =
     (let (t, st) = ts
      in case t_pc t of
           AtSelect i \<Rightarrow>
             if length (Events (t_script t)) \<le> i then (t\<lparr>t_pc := AtDefer\<rparr>, st)
             else if t_ctx t \<in> cancelled st then (t\<lparr>t_pc := AtDefer\<rparr>, st)
             else if elapsed_ms inp < Timestamp (Events (t_script t) ! i)
             then (t\<lparr>t_pc := AtWait i\<rparr>, st)
             else (t\<lparr>t_pc := AtRun i\<rparr>, st)
         | AtWait i \<Rightarrow>
             if t_ctx t \<in> cancelled st \<and> \<not> timer_fires inp then (t\<lparr>t_pc := AtDefer\<rparr>, st)
             else (t\<lparr>t_pc := AtRun i\<rparr>, st)
         | AtRun i \<Rightarrow> (t\<lparr>t_pc := AtSelect (Suc i)\<rparr>, run_event t i st)
         | AtDefer \<Rightarrow>
             (t\<lparr>t_pc := Finished\<rparr>,
              st\<lparr>touchPlaybackCancel := (touchPlaybackCancel st)(t_device t := None),
                 emitted := emitted st @
                   [Notification ''touch-playback-completed'' (t_device t) []]\<rparr>)
         | Finished \<Rightarrow> (t, st))"

text \<open>An interleaving of the steps of the task with calls of \<^verbatim>\<open>StopTouchPlayback\<close>.\<close>

datatype sched = Step step_input | Stop string

fun run_sched :: "sched list \<Rightarrow> task \<times> app_state \<Rightarrow> task \<times> app_state" where
  "run_sched [] ts = ts"
| "run_sched (Step inp # acts) ts = run_sched acts (task_step inp ts)"
| "run_sched (Stop deviceId # acts) ts = run_sched acts (fst ts, StopTouchPlayback deviceId (snd ts))"

text \<open>The notifications of a completed playback of a device among those emitted.\<close>

definition completions :: "string \<Rightarrow> app_state \<Rightarrow> nat" where
  "completions deviceId st =
     length (filter (\<lambda>n. n = Notification ''touch-playback-completed'' deviceId []) (emitted st))"

text \<open>
  Measures of a task: the steps it has left at most, whether it has yet to end, and the
  device commands that it can still issue once its context is cancelled.
\<close>

definition steps_left :: "task \<Rightarrow> nat" where
  "steps_left t =
     (case t_pc t of
        AtSelect i \<Rightarrow> 3 * (length (Events (t_script t)) - i) + 2
      | AtWait i \<Rightarrow> 3 * (length (Events (t_script t)) - Suc i) + 4
      | AtRun i \<Rightarrow> 3 * (length (Events (t_script t)) - Suc i) + 3
      | AtDefer \<Rightarrow> 1
      | Finished \<Rightarrow> 0)"

definition unfinished :: "task \<Rightarrow> nat" where
  "unfinished t = (if t_pc t = Finished then 0 else 1)"

definition cmd_bound :: "pc \<Rightarrow> nat" where
  "cmd_bound p = (case p of AtWait i \<Rightarrow> 1 | AtRun i \<Rightarrow> 1 | _ \<Rightarrow> 0)"

fun is_step :: "sched \<Rightarrow> bool" where
  "is_step (Step inp) = True"
| "is_step (Stop d) = False"

section \<open>The script store\<close>

text \<open>
  A JSON document, after the scanner of \<^verbatim>\<open>encoding/json\<close>: the layout of the text
  (indentation, separators, the escapes of a string) is the library's and is not kept; a
  number is kept as its literal.
\<close>

datatype json =
    JNull
  | JBool bool
  | JNumber string
  | JString string
  | JArray "json list"
  | JObject "(string \<times> json) list"

text \<open>
  \<^verbatim>\<open>json.MarshalIndent(script, "", "  ")\<close>.  The struct tags are with the declarations that
  are not among the sources; the keys are the field names the front end reads.  Two
  parameters stand for what is not known or is the library's: \<open>omitempty\<close>, whether the
  optional fields of an event leave out a zero, and \<open>utf8\<close>, the replacement of invalid
  UTF-8 in a string.
\<close>

definition marshal_event :: "bool \<Rightarrow> (string \<Rightarrow> string) \<Rightarrow> TouchEvent \<Rightarrow> json" where
  "marshal_event omitempty utf8 ev =
     JObject
       ([(''timestamp'', JNumber (FormatInt (Timestamp ev))),
         (''type'', JString (utf8 (Type ev))),
         (''x'', JNumber (FormatInt (X ev))),
         (''y'', JNumber (FormatInt (Y ev)))] @
        (if omitempty \<and> X2 ev = 0 then [] else [(''x2'', JNumber (FormatInt (X2 ev)))]) @
        (if omitempty \<and> Y2 ev = 0 then [] else [(''y2'', JNumber (FormatInt (Y2 ev)))]) @
        (if omitempty \<and> Duration ev = 0 then []
         else [(''duration'', JNumber (FormatInt (Duration ev)))]))"

definition marshal_script :: "bool \<Rightarrow> (string \<Rightarrow> string) \<Rightarrow> TouchScript \<Rightarrow> json" where
  "marshal_script omitempty utf8 script =
     JObject
       [(''deviceId'', JString (utf8 (DeviceID script))),
        (''name'', JString (utf8 (Name script))),
        (''resolution'', JString (utf8 (Resolution script))),
        (''createdAt'', JString (utf8 (CreatedAt script))),
        (''events'', JArray (map (marshal_event omitempty utf8) (Events script)))]"

text \<open>
  \<^verbatim>\<open>json.Unmarshal(data, &script)\<close> into a zero value.  The members of an object are taken
  in order; a key selects a field up to the case of ASCII letters; \<^verbatim>\<open>null\<close> leaves a field
  as it is; a value of the wrong type, or a number that is no 64-bit integer, is an
  error (\<open>None\<close>), on which \<^verbatim>\<open>LoadTouchScripts\<close> skips the file.
\<close>

definition fold_key :: "string \<Rightarrow> string" where
  "fold_key k = map (\<lambda>ch. if 65 \<le> (of_char ch :: nat) \<and> (of_char ch :: nat) \<le> 90
                           then char_of ((of_char ch :: nat) + 32) else ch) k"

definition decode_int :: "json \<Rightarrow> int \<Rightarrow> int option" where
  "decode_int j old =
     (case j of
        JNull \<Rightarrow> Some old
      | JNumber literal \<Rightarrow> (case ParseInt literal 10 64 of (n, None) \<Rightarrow> Some n | (n, Some err) \<Rightarrow> None)
      | _ \<Rightarrow> None)"

definition decode_string :: "json \<Rightarrow> string \<Rightarrow> string option" where
  "decode_string j old = (case j of JNull \<Rightarrow> Some old | JString s \<Rightarrow> Some s | _ \<Rightarrow> None)"

definition zero_event :: TouchEvent where
  "zero_event = \<lparr>Timestamp = 0, Type = [], X = 0, Y = 0, X2 = 0, Y2 = 0, Duration = 0\<rparr>"

definition decode_event_member :: "string \<times> json \<Rightarrow> TouchEvent \<Rightarrow> TouchEvent option" where
  "decode_event_member m ev =
     (let k = fold_key (fst m); j = snd m
      in if k = ''timestamp'' then map_option (\<lambda>v. ev\<lparr>Timestamp := v\<rparr>) (decode_int j (Timestamp ev))
         else if k = ''type'' then map_option (\<lambda>v. ev\<lparr>Type := v\<rparr>) (decode_string j (Type ev))
         else if k = ''x'' then map_option (\<lambda>v. ev\<lparr>X := v\<rparr>) (decode_int j (X ev))
         else if k = ''y'' then map_option (\<lambda>v. ev\<lparr>Y := v\<rparr>) (decode_int j (Y ev))
         else if k = ''x2'' then map_option (\<lambda>v. ev\<lparr>X2 := v\<rparr>) (decode_int j (X2 ev))
         else if k = ''y2'' then map_option (\<lambda>v. ev\<lparr>Y2 := v\<rparr>) (decode_int j (Y2 ev))
         else if k = ''duration''
         then map_option (\<lambda>v. ev\<lparr>Duration := v\<rparr>) (decode_int j (Duration ev))
         else Some ev)"

fun decode_members :: "('m \<Rightarrow> 'a \<Rightarrow> 'a option) \<Rightarrow> 'm list \<Rightarrow> 'a \<Rightarrow> 'a option" where
  "decode_members f [] v = Some v"
| "decode_members f (m # ms) v = (case f m v of None \<Rightarrow> None | Some v' \<Rightarrow> decode_members f ms v')"

definition decode_event :: "json \<Rightarrow> TouchEvent option" where
  "decode_event j =
     (case j of
        JNull \<Rightarrow> Some zero_event
      | JObject ms \<Rightarrow> decode_members decode_event_member ms zero_event
      | _ \<Rightarrow> None)"

fun decode_events :: "json list \<Rightarrow> TouchEvent list option" where
  "decode_events [] = Some []"
| "decode_events (j # js) =
     (case decode_event j of
        None \<Rightarrow> None
      | Some ev \<Rightarrow> map_option ((#) ev) (decode_events js))"

definition decode_script_member :: "string \<times> json \<Rightarrow> TouchScript \<Rightarrow> TouchScript option" where
  "decode_script_member m script =
     (let k = fold_key (fst m); j = snd m
      in if k = ''deviceid''
         then map_option (\<lambda>v. script\<lparr>DeviceID := v\<rparr>) (decode_string j (DeviceID script))
         else if k = ''name''
         then map_option (\<lambda>v. script\<lparr>Name := v\<rparr>) (decode_string j (Name script))
         else if k = ''resolution''
         then map_option (\<lambda>v. script\<lparr>Resolution := v\<rparr>) (decode_string j (Resolution script))
         else if k = ''createdat''
         then map_option (\<lambda>v. script\<lparr>CreatedAt := v\<rparr>) (decode_string j (CreatedAt script))
         else if k = ''events''
         then (case j of
                 JNull \<Rightarrow> Some (script\<lparr>Events := []\<rparr>)
               | JArray js \<Rightarrow> map_option (\<lambda>v. script\<lparr>Events := v\<rparr>) (decode_events js)
               | _ \<Rightarrow> None)
         else Some script)"

definition zero_script :: TouchScript where
  "zero_script = \<lparr>DeviceID = [], Name = [], Resolution = [], CreatedAt = [], Events = []\<rparr>"

definition unmarshal_script :: "json \<Rightarrow> TouchScript option" where
  "unmarshal_script j =
     (case j of
        JNull \<Rightarrow> Some zero_script
      | JObject ms \<Rightarrow> decode_members decode_script_member ms zero_script
      | _ \<Rightarrow> None)"

text \<open>
  The directory of the scripts: the documents by file name.  \<^verbatim>\<open>SaveTouchScript\<close> writes the
  document of a script under its sanitised name; the sanitising of the name (a regular
  expression over the characters of the name) and the time are parameters.
\<close>

definition SaveTouchScript ::
  "bool \<Rightarrow> (string \<Rightarrow> string) \<Rightarrow> (string \<Rightarrow> string) \<Rightarrow> int \<Rightarrow> TouchScript \<Rightarrow>
   (string \<rightharpoonup> json) \<Rightarrow> (string \<rightharpoonup> json)" where
  "SaveTouchScript omitempty utf8 sanitise now script dir =
     (let safeName = (if sanitise (Name script) = [] then ''script_'' @ FormatInt now
                      else sanitise (Name script))
      in dir(safeName @ ''.json'' \<mapsto> marshal_script omitempty utf8 script))"

text \<open>
  \<^verbatim>\<open>LoadTouchScripts\<close> over the entries of the directory (a name, and whether it is a
  directory), in the order in which the operating system lists them.
\<close>

fun LoadTouchScripts :: "(string \<times> bool) list \<Rightarrow> (string \<rightharpoonup> json) \<Rightarrow> TouchScript list" where
  "LoadTouchScripts [] dir = []"
| "LoadTouchScripts ((name, is_dir) # entries) dir =
     (if is_dir \<or> \<not> HasSuffix name ''.json'' then LoadTouchScripts entries dir
      else case dir name of
             None \<Rightarrow> LoadTouchScripts entries dir
           | Some j \<Rightarrow>
               (case unmarshal_script j of
                  None \<Rightarrow> LoadTouchScripts entries dir
                | Some script \<Rightarrow> script # LoadTouchScripts entries dir))"

text \<open>The values of the integer types of Go, and a script as it comes back from the store.\<close>

definition event_in_range :: "TouchEvent \<Rightarrow> bool" where
  "event_in_range ev \<longleftrightarrow>
     in_int64 (Timestamp ev) \<and> in_int64 (X ev) \<and> in_int64 (Y ev) \<and> in_int64 (X2 ev) \<and>
     in_int64 (Y2 ev) \<and> in_int64 (Duration ev)"

definition stored_script :: "(string \<Rightarrow> string) \<Rightarrow> TouchScript \<Rightarrow> TouchScript" where
  "stored_script utf8 script =
     \<lparr>DeviceID = utf8 (DeviceID script), Name = utf8 (Name script),
      Resolution = utf8 (Resolution script), CreatedAt = utf8 (CreatedAt script),
      Events = map (\<lambda>ev. ev\<lparr>Type := utf8 (Type ev)\<rparr>) (Events script)\<rparr>"

section \<open>Example inputs\<close>

definition example_ranges :: ranges where
  "example_ranges =
     \<lparr>screenW = 500, screenH = 500, minX = 0, maxX = 1000, minY = 0, maxY = 1000\<rparr>"


text \<open>A stroke for which no position has been reported at all.\<close>

definition example_blind_stroke :: pstate where
  "example_blind_stroke =
     \<lparr>firstTimestamp = Fin 4, currentX = - 1, currentY = - 1, touchStartTime = Fin 10,
      touchStartX = - 1, touchStartY = - 1, tracking = True, events = []\<rparr>"

definition example_session :: "string \<Rightarrow> int \<Rightarrow> int \<Rightarrow> int \<Rightarrow> int \<Rightarrow> string list \<Rightarrow> TouchRecordingSession" where
  "example_session res x0 x1 y0 y1 lines =
     \<lparr>SessionDeviceID = ''emulator-5554'', StartTime = 0, RawEvents = lines,
      SessionResolution = res, InputDevice = ''/dev/input/event2'',
      MaxX = x1, MaxY = y1, MinX = x0, MinY = y0\<rparr>"

definition example_tree :: UINode where
  "example_tree =
     UINode [] [] ''android.widget.FrameLayout'' [] ''[0,0][1080,2400]''
       [UINode ''OK'' ''com.example:id/ok'' ''android.widget.Button'' [] ''[100,200][300,260]'' []]"

definition example_bounds_selector :: ElementSelector where
  "example_bounds_selector = \<lparr>SelectorType = ''bounds'', Value = ''[5,5][6,6]'', Index = 0\<rparr>"

definition example_script :: TouchScript where
  "example_script =
     \<lparr>DeviceID = ''emulator-5554'', Name = ''login'', Resolution = ''1080x2400'',
      CreatedAt = ''2024-05-01T10:00:00Z'',
      Events =
        [\<lparr>Timestamp = 0, Type = ''tap'', X = 100, Y = 200, X2 = 0, Y2 = 0, Duration = 0\<rparr>,
         \<lparr>Timestamp = 1500, Type = ''swipe'', X = 540, Y = 1800, X2 = 540, Y2 = - 3,
           Duration = 420\<rparr>]\<rparr>"

definition example_app :: app_state where
  "example_app =
     \<lparr>touchRecordCmd = Map.empty, touchRecordCancel = Map.empty, touchRecordData = Map.empty,
      touchPlaybackCancel = Map.empty, cancelled = {}, next_handle = 0, emitted = [],
      adb_log = []\<rparr>"

text \<open>The state and the task after \<^verbatim>\<open>PlayTouchScript\<close> of the example script.\<close>

definition example_playing :: app_state where
  "example_playing =
     example_app\<lparr>next_handle := 1,
       touchPlaybackCancel := [''emulator-5554'' \<mapsto> 0],
       emitted := [Notification ''touch-playback-started'' ''emulator-5554'' [2]]\<rparr>"

definition example_task :: task where
  "example_task =
     \<lparr>t_device = ''emulator-5554'', t_ctx = 0, t_script = example_script, t_pc = AtSelect 0\<rparr>"

definition example_input :: step_input where
  "example_input = \<lparr>elapsed_ms = 0, timer_fires = True\<rparr>"



section \<open>Properties of the float64 model\<close>


lemma pow2_powi: "pow2 k = 2 powi k"
  by (simp add: pow2_def power_int_def inverse_eq_divide power_one_over)

lemma pow2_pos: "0 < pow2 k"
  by (simp add: pow2_powi)

lemma pow2_add: "pow2 (a + b) = pow2 a * pow2 b"
  by (simp add: pow2_powi power_int_add)

lemma pow2_nat: "pow2 (int n) = 2 ^ n"
  by (simp add: pow2_def)

lemma pow2_mono: "a \<le> b \<Longrightarrow> pow2 a \<le> pow2 b"
  by (simp add: pow2_powi power_int_increasing)

lemma pow2_neg: "pow2 (- k) = 1 / pow2 k"
  by (simp add: pow2_powi power_int_minus inverse_eq_divide)

lemma bitlen_ge1: "1 \<le> m \<Longrightarrow> 1 \<le> bitlen m"
  by (simp add: bitlen_alt_def)

lemma bitlen_lower: "1 \<le> m \<Longrightarrow> pow2 (bitlen m - 1) \<le> of_int m"
proof -
  assume m1: "1 \<le> m"
  then have b: "2 ^ nat (bitlen m - 1) \<le> m" using bitlen_bounds[of m] by simp
  have "pow2 (bitlen m - 1) = of_int (2 ^ nat (bitlen m - 1))"
    using bitlen_ge1[OF m1] by (simp add: pow2_def)
  also have "\<dots> \<le> of_int m" using b by (simp only: of_int_le_iff)
  finally show ?thesis .
qed

lemma bitlen_upper: "1 \<le> m \<Longrightarrow> of_int (m + 1) \<le> pow2 (bitlen m)"
proof -
  assume m1: "1 \<le> m"
  then have b: "m + 1 \<le> 2 ^ nat (bitlen m)" using bitlen_bounds[of m] by simp
  have "(of_int (m + 1) :: rat) \<le> of_int (2 ^ nat (bitlen m))"
    using b by (simp only: of_int_le_iff)
  also have "\<dots> = pow2 (bitlen m)"
    using bitlen_ge1[OF m1] by (simp add: pow2_def)
  finally show ?thesis .
qed

lemma floor_log2_lower:
  assumes "0 < a"
  shows "pow2 (floor_log2 a) \<le> a"
proof (cases "1 \<le> a")
  case True
  have m1: "1 \<le> \<lfloor>a\<rfloor>" using True by simp
  have "pow2 (bitlen \<lfloor>a\<rfloor> - 1) \<le> of_int \<lfloor>a\<rfloor>" by (rule bitlen_lower[OF m1])
  also have "\<dots> \<le> a" by simp
  finally show ?thesis using True by (simp add: floor_log2_def)
next
  case False
  define c where "c = \<lceil>1 / a\<rceil>"
  have inv: "1 < 1 / a" using False assms by simp
  then have c2: "2 \<le> c" unfolding c_def by (simp add: le_ceiling_iff)
  then have m1: "1 \<le> c - 1" by simp
  have "1 / a \<le> of_int c" by (simp add: c_def)
  also have "\<dots> = of_int ((c - 1) + 1)" by simp
  also have "\<dots> \<le> pow2 (bitlen (c - 1))" by (rule bitlen_upper[OF m1])
  finally have "1 / a \<le> pow2 (bitlen (c - 1))" .
  then have "1 \<le> pow2 (bitlen (c - 1)) * a" using assms by (simp add: field_simps)
  then have "1 / pow2 (bitlen (c - 1)) \<le> a" using pow2_pos[of "bitlen (c - 1)"]
    by (simp add: field_simps)
  then show ?thesis using False by (simp add: floor_log2_def c_def pow2_neg)
qed

lemma floor_log2_upper:
  assumes "0 < a"
  shows "a < pow2 (floor_log2 a + 1)"
proof (cases "1 \<le> a")
  case True
  have m1: "1 \<le> \<lfloor>a\<rfloor>" using True by simp
  have "a < of_int (\<lfloor>a\<rfloor> + 1)" by linarith
  also have "\<dots> \<le> pow2 (bitlen \<lfloor>a\<rfloor>)" by (rule bitlen_upper[OF m1])
  finally show ?thesis using True by (simp add: floor_log2_def)
next
  case False
  define c where "c = \<lceil>1 / a\<rceil>"
  have inv: "1 < 1 / a" using False assms by simp
  then have c2: "2 \<le> c" unfolding c_def by (simp add: le_ceiling_iff)
  then have m1: "1 \<le> c - 1" by simp
  have "pow2 (bitlen (c - 1) - 1) \<le> of_int (c - 1)" by (rule bitlen_lower[OF m1])
  also have "\<dots> < 1 / a" unfolding c_def by linarith
  finally have "pow2 (bitlen (c - 1) - 1) < 1 / a" .
  then have "pow2 (bitlen (c - 1) - 1) * a < 1" using assms by (simp add: field_simps)
  then have "a < 1 / pow2 (bitlen (c - 1) - 1)" using pow2_pos[of "bitlen (c - 1) - 1"]
    by (simp add: field_simps)
  also have "\<dots> = pow2 (- (bitlen (c - 1) - 1))" by (simp only: pow2_neg)
  also have "- (bitlen (c - 1) - 1) = - bitlen (c - 1) + 1" by simp
  finally show ?thesis using False by (simp add: floor_log2_def c_def)
qed

lemma round_half_even_err: "\<bar>of_int (round_half_even v) - v\<bar> \<le> 1 / 2"
proof -
  have "of_int \<lfloor>v\<rfloor> \<le> v" "v < of_int \<lfloor>v\<rfloor> + 1" by linarith+
  then show ?thesis
    by (auto simp: round_half_even_def Let_def abs_le_iff)
qed

lemma round_half_even_int: "round_half_even (of_int n) = n"
  by (simp add: round_half_even_def Let_def)

lemma fl64_error:
  assumes x0: "x \<noteq> 0" and lo: "pow2 (- 1022) \<le> \<bar>x\<bar>" and hi: "\<bar>x\<bar> < pow2 1023"
  shows "\<exists>y. fl64 x = Fin y \<and> \<bar>y - x\<bar> \<le> \<bar>x\<bar> / 2 ^ 53 \<and> (0 < x \<longrightarrow> 0 < y) \<and> (x < 0 \<longrightarrow> y < 0)"
proof -
  define a where "a = \<bar>x\<bar>"
  define e where "e = floor_log2 a"
  define u where "u = pow2 (e - 52)"
  define n where "n = round_half_even (a / u)"
  have a0: "0 < a" using x0 by (simp add: a_def)
  have l: "pow2 e \<le> a" and h: "a < pow2 (e + 1)"
    unfolding e_def using floor_log2_lower[OF a0] floor_log2_upper[OF a0] by auto
  have e_hi: "e < 1023"
  proof (rule ccontr)
    assume "\<not> e < 1023"
    then have "pow2 1023 \<le> pow2 e" by (intro pow2_mono) simp
    with l hi show False by (simp add: a_def)
  qed
  have e_lo: "- 1022 \<le> e"
  proof (rule ccontr)
    assume "\<not> - 1022 \<le> e"
    then have "pow2 (e + 1) \<le> pow2 (- 1022)" by (intro pow2_mono) simp
    with h lo show False by (simp add: a_def)
  qed
  have u0: "0 < u" by (simp add: u_def pow2_pos)
  have fl: "fl64 x = Fin (sgn x * (of_int n * u))"
    using x0 e_hi e_lo
    by (simp add: fl64_def Let_def a_def[symmetric] e_def[symmetric] u_def[symmetric]
        n_def[symmetric] max_def)
  have err: "\<bar>of_int n - a / u\<bar> \<le> 1 / 2" unfolding n_def by (rule round_half_even_err)
  have "of_int n * u - a = (of_int n - a / u) * u"
    using u0 by (simp add: field_simps)
  then have "\<bar>of_int n * u - a\<bar> = \<bar>of_int n - a / u\<bar> * u"
    using u0 by (simp add: abs_mult)
  also have "\<dots> \<le> 1 / 2 * u" using err u0 by (intro mult_right_mono) auto
  also have "\<dots> = pow2 e / 2 ^ 53"
  proof -
    have "pow2 e = pow2 ((e - 52) + 52)" by simp
    also have "\<dots> = u * 2 ^ 52" unfolding u_def pow2_add by (simp add: pow2_def)
    finally show ?thesis by simp
  qed
  also have "\<dots> \<le> a / 2 ^ 53" using l by (simp add: divide_right_mono)
  finally have bound: "\<bar>of_int n * u - a\<bar> \<le> a / 2 ^ 53" .
  have npos: "0 < of_int n * u"
  proof -
    have "a / 2 ^ 53 < a" using a0 by (simp add: field_simps)
    with bound show ?thesis by linarith
  qed
  show ?thesis
  proof (cases "0 < x")
    case True
    then have "sgn x = 1" "a = x" by (simp_all add: a_def)
    with fl bound npos True show ?thesis by (auto simp: a_def)
  next
    case False
    then have s: "sgn x = - 1" "a = - x" "x < 0" using x0 by (simp_all add: a_def)
    have "\<bar>- (of_int n * u) - x\<bar> = \<bar>of_int n * u - a\<bar>" using s by (simp add: abs_minus_commute)
    with fl bound npos s show ?thesis by (auto simp: a_def)
  qed
qed


lemma fl64_int_exact:
  assumes "0 < m" and "m < 2 ^ 53"
  shows "fl64 (of_int m) = Fin (of_int m)"
proof -
  define a :: rat where "a = of_int m"
  define e where "e = floor_log2 a"
  have a0: "0 < a" using assms by (simp add: a_def)
  have l: "pow2 e \<le> a" and h: "a < pow2 (e + 1)"
    unfolding e_def using floor_log2_lower[OF a0] floor_log2_upper[OF a0] by auto
  have a1: "1 \<le> a" using assms by (simp add: a_def)
  have aub: "a < pow2 53" using assms(2) unfolding a_def pow2_def
    by (simp del: of_int_numeral add: of_int_less_iff[where 'a=rat, of m "2 ^ 53", simplified])
  have e_hi: "e \<le> 52"
  proof (rule ccontr)
    assume "\<not> e \<le> 52"
    then have "pow2 53 \<le> pow2 e" by (intro pow2_mono) simp
    with l aub show False by simp
  qed
  have e_lo: "0 \<le> e"
  proof (rule ccontr)
    assume "\<not> 0 \<le> e"
    then have "pow2 (e + 1) \<le> pow2 0" by (intro pow2_mono) simp
    with h a1 show False by (simp add: pow2_def)
  qed
  define k where "k = nat (52 - e)"
  have u: "pow2 (e - 52) = 1 / 2 ^ k" using e_hi by (simp add: pow2_def k_def)
  have q: "a / pow2 (e - 52) = of_int (m * 2 ^ k)" by (simp add: u a_def)
  have n: "round_half_even (a / pow2 (e - 52)) = m * 2 ^ k"
    unfolding q by (rule round_half_even_int)
  have "fl64 a = Fin (sgn a * (of_int (m * 2 ^ k) * pow2 (e - 52)))"
    using a0 e_hi e_lo n
    by (simp add: fl64_def Let_def e_def[symmetric] max_def)
  also have "sgn a * (of_int (m * 2 ^ k) * pow2 (e - 52)) = a"
    using a0 by (simp add: u a_def)
  finally show ?thesis by (simp add: a_def)
qed

lemma fl64_zero: "fl64 0 = Fin 0"
  by (simp add: fl64_def)

lemma float64_of_int_exact:
  assumes "0 \<le> m" and "m < 2 ^ 53"
  shows "float64_of_int m = Fin (of_int m)"
proof (cases "m = 0")
  case True
  then show ?thesis by (simp add: float64_of_int_def fl64_zero)
next
  case False
  with assms have "0 < m" by simp
  then show ?thesis unfolding float64_of_int_def using assms(2) by (rule fl64_int_exact)
qed

lemma pow2_numeral_cmp: "pow2 (- 1022) \<le> 1 / 4" "(2::rat) ^ 100 < pow2 1023"
proof -
  have "pow2 (- 1022) \<le> pow2 (- 2)" by (intro pow2_mono) simp
  then show "pow2 (- 1022) \<le> 1 / 4" by (simp add: pow2_def)
  have "pow2 100 \<le> pow2 1022" by (intro pow2_mono) simp
  also have "pow2 1022 < pow2 1023" by (simp add: pow2_powi)
  finally show "(2::rat) ^ 100 < pow2 1023" by (simp add: pow2_def)
qed

text \<open>A value between a quarter and \<open>2^100\<close> is rounded to a finite positive value, with
  relative error at most \<open>2^-53\<close>.\<close>

lemma fl64_mid:
  assumes "1 / 4 \<le> x" and "x \<le> 2 ^ 100"
  shows "\<exists>y. fl64 x = Fin y \<and> \<bar>y - x\<bar> \<le> x / 2 ^ 53 \<and> 0 < y"
proof -
  have x0: "x \<noteq> 0" "0 < x" using assms by auto
  have lo: "pow2 (- 1022) \<le> \<bar>x\<bar>" using pow2_numeral_cmp(1) assms(1) by simp
  have hi: "\<bar>x\<bar> < pow2 1023" using pow2_numeral_cmp(2) assms x0 by simp
  from fl64_error[OF x0(1) lo hi] x0(2) show ?thesis by auto
qed

lemma float64_of_int_pos:
  assumes "0 < n" and "n < 2 ^ 64"
  shows "\<exists>a. float64_of_int n = Fin a \<and> 1 / 2 \<le> a \<and> a \<le> 2 ^ 65"
proof -
  define N :: rat where "N = of_int n"
  have n1: "1 \<le> N" using assms by (simp add: N_def)
  have n2: "N \<le> 2 ^ 64"
    using assms(2) of_int_le_iff[where 'a=rat, of n "2 ^ 64"] by (simp add: N_def)
  have "1 / 4 \<le> N" "N \<le> 2 ^ 100" using n1 n2 by auto
  from fl64_mid[OF this] obtain y where y: "fl64 N = Fin y" "\<bar>y - N\<bar> \<le> N / 2 ^ 53" by auto
  have "N / 2 ^ 53 \<le> N / 2" by (rule divide_left_mono) (use n1 in auto)
  with y(2) have "\<bar>y - N\<bar> \<le> N / 2" by linarith
  moreover have "N \<le> 18446744073709551616" using n2 by simp
  ultimately have "1 / 2 \<le> y" "y \<le> 36893488147419103232" using n1 by linarith+
  then have "1 / 2 \<le> y" "y \<le> 2 ^ 65" by simp_all
  with y(1) show ?thesis by (auto simp: float64_of_int_def N_def)
qed

lemma div_pow_le: "0 \<le> x \<Longrightarrow> x \<le> 2 ^ 32 \<Longrightarrow> x / 2 ^ 53 \<le> (1 / 2097152 :: rat)"
proof -
  assume "0 \<le> x" "x \<le> 2 ^ 32"
  then have "x / 2 ^ 53 \<le> 2 ^ 32 / 2 ^ 53" by (intro divide_right_mono) auto
  then show ?thesis by simp
qed

lemma round_trip:
  assumes b0: "0 \<le> b" and b31: "b < 2 ^ 31" and a1: "1 / 2 \<le> a" and a2: "a \<le> 2 ^ 65"
  shows "round_go (fdiv (fl64 (of_int b * a)) (Fin a)) = b"
proof (cases "b = 0")
  case True
  have "1 / 4 \<le> (1 / 2 :: rat)" "(1 / 2 :: rat) \<le> 2 ^ 100" by simp_all
  from fl64_mid[OF this] obtain r where r: "fl64 (1 / 2) = Fin r" "\<bar>r - 1 / 2\<bar> \<le> (1 / 2) / 2 ^ 53" "0 < r"
    by auto
  have "(1 / 2) / 2 ^ 53 \<le> (1 / 2097152 :: rat)" by (rule div_pow_le) simp_all
  with r(2) have "\<bar>r - 1 / 2\<bar> \<le> 1 / 2097152" by linarith
  then have "0 \<le> r" "r < 1" by linarith+
  then have "\<lfloor>r\<rfloor> = 0" by (simp add: floor_eq_iff)
  then show ?thesis using True a1 r(1) \<open>0 \<le> r\<close>
    by (simp add: round_go_def fdiv_def fadd_def fl64_zero trunc_rat_def in_int64_def)
next
  case False
  define B :: rat where "B = of_int b"
  have B1: "1 \<le> B" using False b0 by (simp add: B_def)
  have B2: "B \<le> 2 ^ 31"
    using b31 of_int_le_iff[where 'a=rat, of b "2 ^ 31"] by (simp add: B_def)
  have B2': "B \<le> 2147483648" using B2 by simp
  have a0: "0 < a" using a1 by simp
  have x1: "1 / 4 \<le> B * a" 
  proof -
    have "1 * (1 / 2) \<le> B * a" using B1 a1 by (intro mult_mono) auto
    then show ?thesis by simp
  qed
  have x1': "B * a \<le> 2 ^ 100"
  proof -
    have "B * a \<le> 2 ^ 31 * 2 ^ 65" using B1 B2 a1 a2 by (intro mult_mono) auto
    then show ?thesis by simp
  qed
  from fl64_mid[OF x1 x1'] obtain p where p: "fl64 (B * a) = Fin p" "\<bar>p - B * a\<bar> \<le> B * a / 2 ^ 53" "0 < p"
    by auto
  have pa: "\<bar>p / a - B\<bar> \<le> B / 2 ^ 53"
  proof -
    have "p / a - B = (p - B * a) / a" using a0 by (simp add: field_simps)
    then have "\<bar>p / a - B\<bar> = \<bar>p - B * a\<bar> / a" using a0 by (simp add: abs_divide)
    also have "\<dots> \<le> (B * a / 2 ^ 53) / a" using p(2) a0 by (intro divide_right_mono) auto
    also have "\<dots> = B / 2 ^ 53" using a0 by simp
    finally show ?thesis .
  qed
  have "B / 2 ^ 53 \<le> 1 / 2097152" by (rule div_pow_le) (use B1 B2 in auto)
  with pa have pa': "\<bar>p / a - B\<bar> \<le> 1 / 2097152" by linarith
  have x2: "1 / 4 \<le> p / a" "p / a \<le> 4294967296"
    using pa' B1 B2' by linarith+
  have x2': "p / a \<le> 2 ^ 100" "p / a \<le> 2 ^ 32" "0 \<le> p / a"
  proof -
    show "0 \<le> p / a" using x2(1) by linarith
    have "(4294967296::rat) \<le> 2 ^ 100" "(4294967296::rat) \<le> 2 ^ 32" by simp_all
    with x2(2) show "p / a \<le> 2 ^ 100" "p / a \<le> 2 ^ 32" by linarith+
  qed
  from fl64_mid[OF x2(1) x2'(1)] obtain q where q: "fl64 (p / a) = Fin q" "\<bar>q - p / a\<bar> \<le> (p / a) / 2 ^ 53" "0 < q"
    by auto
  have "(p / a) / 2 ^ 53 \<le> 1 / 2097152" using x2'(3,2) by (rule div_pow_le)
  with q(2) have qe: "\<bar>q - p / a\<bar> \<le> 1 / 2097152" by linarith
  have qB: "\<bar>q - B\<bar> \<le> 1 / 1048576" using qe pa' by linarith
  have x3: "1 / 4 \<le> q + 1 / 2" "q + 1 / 2 \<le> 4294967296"
    using qB B1 B2' by linarith+
  have x3': "q + 1 / 2 \<le> 2 ^ 100" "q + 1 / 2 \<le> 2 ^ 32" "0 \<le> q + 1 / 2"
  proof -
    show "0 \<le> q + 1 / 2" using x3(1) by linarith
    have "(4294967296::rat) \<le> 2 ^ 100" "(4294967296::rat) \<le> 2 ^ 32" by simp_all
    with x3(2) show "q + 1 / 2 \<le> 2 ^ 100" "q + 1 / 2 \<le> 2 ^ 32" by linarith+
  qed
  from fl64_mid[OF x3(1) x3'(1)] obtain r where r: "fl64 (q + 1 / 2) = Fin r" "\<bar>r - (q + 1 / 2)\<bar> \<le> (q + 1 / 2) / 2 ^ 53"
    by auto
  have "(q + 1 / 2) / 2 ^ 53 \<le> 1 / 2097152" using x3'(3,2) by (rule div_pow_le)
  with r(2) have re: "\<bar>r - (q + 1 / 2)\<bar> \<le> 1 / 2097152" by linarith
  have rb: "B \<le> r" "r < B + 1" using re qB by linarith+
  then have fl: "\<lfloor>r\<rfloor> = b" unfolding B_def by (simp add: floor_eq_iff)
  have "0 \<le> r" using rb B1 by simp
  moreover have "in_int64 b" using b0 b31 by (simp add: in_int64_def)
  ultimately show ?thesis using p(1) q(1) r(1) a0 fl
    by (simp add: round_go_def fdiv_def fadd_def trunc_rat_def B_def)
qed

section \<open>The parser\<close>

lemma s64_id: "in_int64 x \<Longrightarrow> s64 x = x"
  by (simp add: s64_def in_int64_def)






lemma finger_up_btn_touch_eq: "finger_up_btn_touch e ts rel st = finger_up_tracking_id e ts rel st"
  by (simp add: finger_up_btn_touch_def finger_up_tracking_id_def)

lemma finger_up_unknown:
  assumes "\<not> coords_known st"
  shows "events (finger_up_tracking_id e ts rel st) = events st"
  using assms
  unfolding coords_known_def stroke_start_x_def stroke_start_y_def
  apply (cases "touchStartX st = - 1"; cases "touchStartY st = - 1")
  apply (simp_all add: finger_up_tracking_id_def Let_def)
  done

lemma ev_value_SomeD:
  assumes "ev_value m4 = Some v"
  obtains u where
    "ParseUint (if m4 = ''DOWN'' then ''00000001''
                else if m4 = ''UP'' then ''00000000'' else m4) 16 32 = (u, None)"
    and "int32_of_uint u = v"
  using assms unfolding ev_value_def by (auto split: prod.splits option.splits)

lemma first_update_simps:
  "coords_known (st\<lparr>firstTimestamp := t\<rparr>) = coords_known st"
  "stroke_start_x (st\<lparr>firstTimestamp := t\<rparr>) = stroke_start_x st"
  "stroke_start_y (st\<lparr>firstTimestamp := t\<rparr>) = stroke_start_y st"
  "stroke_sq_displacement e (st\<lparr>firstTimestamp := t\<rparr>) = stroke_sq_displacement e st"
  by (simp_all add: coords_known_def stroke_start_x_def stroke_start_y_def
      stroke_sq_displacement_def)

lemma process_match_up:
  assumes tr: "tracking st"
    and up: "(m3 = ''ABS_MT_TRACKING_ID'' \<and> ev_value m4 = Some (- 1)) \<or>
             (m3 = ''BTN_TOUCH'' \<and> ev_value m4 = Some 0)"
  shows "process_match e st m1 ''EV_ABS'' m3 m4 =
         finger_up_tracking_id e (line_time m1) (ms_between (first_time st m1) (line_time m1))
           (st\<lparr>firstTimestamp := first_time st m1\<rparr>)"
  using up
proof (elim disjE conjE)
  assume m3: "m3 = ''ABS_MT_TRACKING_ID''" and v: "ev_value m4 = Some (- 1)"
  from v obtain u where u: "ParseUint (if m4 = ''DOWN'' then ''00000001''
                else if m4 = ''UP'' then ''00000000'' else m4) 16 32 = (u, None)"
    "int32_of_uint u = - 1" by (rule ev_value_SomeD)
  show ?thesis
    using tr u m3
    by (simp add: process_match_def Let_def first_time_def line_time_def ms_between_def)
next
  assume m3: "m3 = ''BTN_TOUCH''" and v: "ev_value m4 = Some 0"
  from v obtain u where u: "ParseUint (if m4 = ''DOWN'' then ''00000001''
                else if m4 = ''UP'' then ''00000000'' else m4) 16 32 = (u, None)"
    "int32_of_uint u = 0" by (rule ev_value_SomeD)
  show ?thesis
    using tr u m3
    by (simp add: process_match_def Let_def first_time_def line_time_def ms_between_def
        finger_up_btn_touch_eq)
qed





lemma process_line_no_match:
  "FindStringSubmatch line_re 4 line = [] \<Longrightarrow> process_line e st line = st"
  by (simp add: process_line_def)

lemma foldl_no_match:
  "\<forall>l\<in>set ls. FindStringSubmatch line_re 4 l = [] \<Longrightarrow> foldl (process_line e) st ls = st"
  by (induction ls arbitrary: st) (simp_all add: process_line_no_match)

lemma example_session_simps:
  "RawEvents (example_session res x0 x1 y0 y1 ls) = ls"
  "SessionResolution (example_session res x0 x1 y0 y1 ls) = res"
  "MinX (example_session res x0 x1 y0 y1 ls) = x0"
  "MaxX (example_session res x0 x1 y0 y1 ls) = x1"
  "MinY (example_session res x0 x1 y0 y1 ls) = y0"
  "MaxY (example_session res x0 x1 y0 y1 ls) = y1"
  by (simp_all add: example_session_def)


subsection \<open>Evaluations at the example inputs\<close>








lemma example_up_value: "ev_value ''ffffffff'' = Some (- 1)"
  by code_simp

lemma example_up:
  "(''ABS_MT_TRACKING_ID'' = ''ABS_MT_TRACKING_ID'' \<and> ev_value ''ffffffff'' = Some (- 1)) \<or>
   (''ABS_MT_TRACKING_ID'' = ''BTN_TOUCH'' \<and> ev_value ''ffffffff'' = Some 0)"
  using example_up_value by simp

section \<open>The claims about the parser\<close>







text \<open>
  Claim C5.  \<^verbatim>\<open>parseRawEvents\<close> returns a script for every session, with the device id, the
  resolution and the creation time of the session and an empty name.  The script has no
  events when the session has no raw lines and when none of its lines matches the line
  pattern.  A finger-up that finds a start or end coordinate still unknown ends the
  stroke without emitting an event.
\<close>

theorem parse_never_fails:
  shows "DeviceID (parseRawEvents f s) = SessionDeviceID s \<and>
         Resolution (parseRawEvents f s) = SessionResolution s \<and>
         Name (parseRawEvents f s) = [] \<and>
         CreatedAt (parseRawEvents f s) = f (StartTime s) \<and>
         (RawEvents s = [] \<longrightarrow> Events (parseRawEvents f s) = []) \<and>
         ((\<forall>l\<in>set (RawEvents s). FindStringSubmatch line_re 4 l = []) \<longrightarrow>
            Events (parseRawEvents f s) = []) \<and>
         (tracking st \<and> \<not> coords_known st \<and>
          ((m3 = ''ABS_MT_TRACKING_ID'' \<and> ev_value m4 = Some (- 1)) \<or>
           (m3 = ''BTN_TOUCH'' \<and> ev_value m4 = Some 0)) \<longrightarrow>
            events (process_match e st m1 ''EV_ABS'' m3 m4) = events st \<and>
            \<not> tracking (process_match e st m1 ''EV_ABS'' m3 m4))"
proof (intro conjI impI)
  show "DeviceID (parseRawEvents f s) = SessionDeviceID s"
    by (simp add: parseRawEvents_def Let_def)
  show "Resolution (parseRawEvents f s) = SessionResolution s"
    by (simp add: parseRawEvents_def Let_def)
  show "Name (parseRawEvents f s) = []"
    by (simp add: parseRawEvents_def Let_def)
  show "CreatedAt (parseRawEvents f s) = f (StartTime s)"
    by (simp add: parseRawEvents_def Let_def)
  show "Events (parseRawEvents f s) = []" if "RawEvents s = []"
    using that by (simp add: parseRawEvents_def Let_def)
  show "Events (parseRawEvents f s) = []"
    if "\<forall>l\<in>set (RawEvents s). FindStringSubmatch line_re 4 l = []"
    using foldl_no_match[OF that] by (simp add: parseRawEvents_def Let_def init_pstate_def)
next
  assume a: "tracking st \<and> \<not> coords_known st \<and>
          ((m3 = ''ABS_MT_TRACKING_ID'' \<and> ev_value m4 = Some (- 1)) \<or>
           (m3 = ''BTN_TOUCH'' \<and> ev_value m4 = Some 0))"
  then have tr: "tracking st" and nk: "\<not> coords_known (st\<lparr>firstTimestamp := first_time st m1\<rparr>)"
    and up: "(m3 = ''ABS_MT_TRACKING_ID'' \<and> ev_value m4 = Some (- 1)) \<or>
           (m3 = ''BTN_TOUCH'' \<and> ev_value m4 = Some 0)"
    by (simp_all add: first_update_simps)
  show "events (process_match e st m1 ''EV_ABS'' m3 m4) = events st"
    unfolding process_match_up[OF tr up] finger_up_unknown[OF nk] by simp
  show "\<not> tracking (process_match e st m1 ''EV_ABS'' m3 m4)"
    unfolding process_match_up[OF tr up]
    by (simp add: finger_up_tracking_id_def Let_def)
qed


theorem parse_never_fails_witness:
  "RawEvents (example_session ''500x500'' 0 1000 0 1000 []) = [] \<and>
   Events (parseRawEvents (\<lambda>t. ''2024-05-01T10:00:00Z'')
             (example_session ''500x500'' 0 1000 0 1000 [])) = [] \<and>
   FindStringSubmatch line_re 4 ''/system/bin/sh: getevent: not found'' = [] \<and>
   FindStringSubmatch line_re 4 ''EV_ABS 0035 00000123'' = [] \<and>
   Events (parseRawEvents (\<lambda>t. ''2024-05-01T10:00:00Z'')
             (example_session ''500x500'' 0 1000 0 1000
                [''/system/bin/sh: getevent: not found'', ''EV_ABS 0035 00000123''])) = [] \<and>
   tracking example_blind_stroke \<and> \<not> coords_known example_blind_stroke \<and>
   ev_value ''ffffffff'' = Some (- 1) \<and>
   events (process_match example_ranges example_blind_stroke ''10.299500'' ''EV_ABS''
             ''ABS_MT_TRACKING_ID'' ''ffffffff'') = events example_blind_stroke"
proof -
  have a: "RawEvents (example_session ''500x500'' 0 1000 0 1000 []) = []"
    by (simp add: example_session_simps)
  have l1: "FindStringSubmatch line_re 4 ''/system/bin/sh: getevent: not found'' = []"
    by code_simp
  have l2: "FindStringSubmatch line_re 4 ''EV_ABS 0035 00000123'' = []"
    by code_simp
  have b: "\<forall>l\<in>set (RawEvents (example_session ''500x500'' 0 1000 0 1000
              [''/system/bin/sh: getevent: not found'', ''EV_ABS 0035 00000123''])).
             FindStringSubmatch line_re 4 l = []"
    using l1 l2 by (simp add: example_session_simps)
  have c1: "tracking example_blind_stroke" by (simp add: example_blind_stroke_def)
  have c2: "\<not> coords_known example_blind_stroke" by code_simp
  have c: "tracking example_blind_stroke \<and> \<not> coords_known example_blind_stroke \<and>
           ((''ABS_MT_TRACKING_ID'' = ''ABS_MT_TRACKING_ID'' \<and> ev_value ''ffffffff'' = Some (- 1)) \<or>
            (''ABS_MT_TRACKING_ID'' = ''BTN_TOUCH'' \<and> ev_value ''ffffffff'' = Some 0))"
    using c1 c2 example_up by simp
  show ?thesis
    using parse_never_fails[of "\<lambda>t. ''2024-05-01T10:00:00Z''"
        "example_session ''500x500'' 0 1000 0 1000 []"] a
      parse_never_fails[of "\<lambda>t. ''2024-05-01T10:00:00Z''"
        "example_session ''500x500'' 0 1000 0 1000
           [''/system/bin/sh: getevent: not found'', ''EV_ABS 0035 00000123'']"] b
      parse_never_fails[of _ _ example_blind_stroke "''ABS_MT_TRACKING_ID''" "''ffffffff''"
        example_ranges "''10.299500''"] c
      l1 l2 c1 c2 example_up_value
    by simp
qed





section \<open>The claims about degenerate ranges and the two protocols\<close>

lemma effective_ranges_degenerate:
  "MaxX s = MinX s \<Longrightarrow>
   minX (effective_ranges s) = 0 \<and> maxX (effective_ranges s) = fst (screen_size (SessionResolution s))"
  "MaxY s = MinY s \<Longrightarrow>
   minY (effective_ranges s) = 0 \<and> maxY (effective_ranges s) = snd (screen_size (SessionResolution s))"
  by (simp_all add: effective_ranges_def Let_def split: prod.splits)

lemma effective_ranges_screen:
  "screenW (effective_ranges s) = fst (screen_size (SessionResolution s))"
  "screenH (effective_ranges s) = snd (screen_size (SessionResolution s))"
  by (simp_all add: effective_ranges_def Let_def split: prod.splits)

text \<open>
  Where the scaling divides, the divisor is not zero: the branch is taken for \<open>lo < hi\<close>
  only, and the difference of two distinct values of Go's \<^verbatim>\<open>int\<close> is not zero.
\<close>

lemma s64_diff_nonzero:
  assumes "lo < hi" and "in_int64 lo" and "in_int64 hi"
  shows "s64 (hi - lo) \<noteq> 0" and "in_int64 (s64 (hi - lo))"
proof -
  have d: "0 < hi - lo" "hi - lo < 2 ^ 64" using assms by (auto simp: in_int64_def)
  show "in_int64 (s64 (hi - lo))" by (simp add: s64_def in_int64_def)
  show "s64 (hi - lo) \<noteq> 0"
  proof (cases "hi - lo < 2 ^ 63")
    case True
    then show ?thesis using d(1) by (simp add: s64_id in_int64_def)
  next
    case False
    then have "hi - lo + 2 ^ 63 - 2 ^ 64 \<ge> 0" "hi - lo + 2 ^ 63 - 2 ^ 64 < 2 ^ 64" using d by auto
    then have "(hi - lo + 2 ^ 63) mod 2 ^ 64 = hi - lo + 2 ^ 63 - 2 ^ 64"
      by (metis mod_add_self2 mod_pos_pos_trivial diff_add_cancel)
    then show ?thesis using d(2) by (simp add: s64_def)
  qed
qed

lemma float64_of_int_nonzero:
  assumes "n \<noteq> 0" and "in_int64 n"
  shows "\<exists>a. float64_of_int n = Fin a \<and> a \<noteq> 0"
proof -
  define x :: rat where "x = of_int n"
  have x0: "x \<noteq> 0" using assms(1) by (simp add: x_def)
  have "1 \<le> \<bar>n\<bar>" using assms(1) by simp
  then have "(1::rat) \<le> of_int \<bar>n\<bar>" by (simp only: of_int_1_le_iff)
  then have x1: "1 \<le> \<bar>x\<bar>" by (simp add: x_def)
  have "\<bar>n\<bar> \<le> 2 ^ 63" using assms(2) by (auto simp: in_int64_def)
  then have "(of_int \<bar>n\<bar> :: rat) \<le> of_int (2 ^ 63)" by (simp only: of_int_le_iff)
  then have x2: "\<bar>x\<bar> \<le> 2 ^ 100" by (simp add: x_def)
  have lo: "pow2 (- 1022) \<le> \<bar>x\<bar>" using pow2_numeral_cmp(1) x1 by linarith
  have hi: "\<bar>x\<bar> < pow2 1023" using pow2_numeral_cmp(2) x2 by linarith
  from fl64_error[OF x0 lo hi] obtain y where y: "fl64 x = Fin y" "0 < x \<longrightarrow> 0 < y" "x < 0 \<longrightarrow> y < 0"
    by auto
  then have "y \<noteq> 0" using x0 by (cases "0 < x") auto
  with y(1) show ?thesis by (auto simp: float64_of_int_def x_def)
qed

lemma scale_divisor_nonzero:
  assumes "lo < hi" and "in_int64 lo" and "in_int64 hi"
  shows "\<exists>a. float64_of_int (s64 (hi - lo)) = Fin a \<and> a \<noteq> 0"
  using float64_of_int_nonzero[OF s64_diff_nonzero[OF assms]] .

text \<open>A raw coordinate from 0 to below \<open>2^31\<close> passes through the fallback range unchanged.\<close>

lemma fallback_identity:
  assumes "0 \<le> raw" and "raw < 2 ^ 31" and "0 < W" and "W < 2 ^ 63"
  shows "scale_coord raw 0 W W = raw"
proof -
  have "W < 2 ^ 64" using assms(4) by simp
  from float64_of_int_pos[OF assms(3) this] obtain a where
    a: "float64_of_int W = Fin a" "1 / 2 \<le> a" "a \<le> 2 ^ 65" by auto
  have r: "float64_of_int raw = Fin (of_int raw)"
    using assms(1,2) by (intro float64_of_int_exact) auto
  have i: "in_int64 raw" "in_int64 W" using assms by (auto simp: in_int64_def)
  have "round_go (fdiv (fl64 (of_int raw * a)) (Fin a)) = raw"
    by (rule round_trip[OF assms(1,2) a(2,3)])
  then show ?thesis using a(1) r i by (simp add: scale_coord_def s64_id fmul_def)
qed

lemma scale_negative: "scale_coord (- 2) 0 1080 1080 = - 1"
  by code_simp

lemma negative_example_ranges:
  "effective_ranges (example_session ''1080x1920'' 0 0 0 0 []) =
     \<lparr>screenW = 1080, screenH = 1920, minX = 0, maxX = 1080, minY = 0, maxY = 1920\<rparr>"
  by code_simp

lemma negative_example_value: "ev_value ''fffffffe'' = Some (- 2)"
  by code_simp

lemma negative_example_parse:
  "Events (parseRawEvents f (example_session ''1080x1920'' 0 0 0 0
     [''[ 1.000000] EV_ABS ABS_MT_TRACKING_ID 00000001'',
      ''[ 1.000000] EV_ABS ABS_MT_POSITION_X fffffffe'',
      ''[ 1.000000] EV_ABS ABS_MT_POSITION_Y 00000064'',
      ''[ 1.050000] EV_ABS ABS_MT_TRACKING_ID ffffffff''])) =
     [\<lparr>Timestamp = 50, Type = ''tap'', X = - 1, Y = 100, X2 = 0, Y2 = 0, Duration = 0\<rparr>]"
  by code_simp

text \<open>
  Claim C3.  For a session whose detected range is degenerate the parser puts the range from
  0 to the screen dimension in its place and divides by no zero; what is claimed beyond
  that, that every raw coordinate then reaches the event unchanged, fails for a negative
  coordinate: the rounding \<^verbatim>\<open>int(val + 0.5)\<close> truncates towards zero, and the raw X of
  \<open>-2\<close> (the line value \<^verbatim>\<open>fffffffe\<close>) is emitted as \<open>-1\<close>.  The session below has the ranges
  zero/zero of a failed probe and the resolution 1080x1920.
\<close>

theorem degenerate_range_shifts_negative_coordinate:
  "effective_ranges (example_session ''1080x1920'' 0 0 0 0 []) =
     \<lparr>screenW = 1080, screenH = 1920, minX = 0, maxX = 1080, minY = 0, maxY = 1920\<rparr> \<and>
   ev_value ''fffffffe'' = Some (- 2) \<and>
   Events (parseRawEvents f (example_session ''1080x1920'' 0 0 0 0
     [''[ 1.000000] EV_ABS ABS_MT_TRACKING_ID 00000001'',
      ''[ 1.000000] EV_ABS ABS_MT_POSITION_X fffffffe'',
      ''[ 1.000000] EV_ABS ABS_MT_POSITION_Y 00000064'',
      ''[ 1.050000] EV_ABS ABS_MT_TRACKING_ID ffffffff''])) =
     [\<lparr>Timestamp = 50, Type = ''tap'', X = - 1, Y = 100, X2 = 0, Y2 = 0, Duration = 0\<rparr>]"
  using negative_example_ranges negative_example_value negative_example_parse[of f]
  by (intro conjI)

lemma process_match_down:
  assumes nt: "\<not> tracking st" and v: "ev_value m4 = Some v"
    and d: "(m3 = ''ABS_MT_TRACKING_ID'' \<and> v \<noteq> - 1) \<or> (m3 = ''BTN_TOUCH'' \<and> v = 1)"
  shows "process_match e st m1 ''EV_ABS'' m3 m4 =
         finger_down (line_time m1) (st\<lparr>firstTimestamp := first_time st m1\<rparr>)"
proof -
  from v obtain u where u: "ParseUint (if m4 = ''DOWN'' then ''00000001''
                else if m4 = ''UP'' then ''00000000'' else m4) 16 32 = (u, None)"
    "int32_of_uint u = v" by (rule ev_value_SomeD)
  from d show ?thesis
  proof (elim disjE conjE)
    assume "m3 = ''ABS_MT_TRACKING_ID''" "v \<noteq> - 1"
    then show ?thesis
      using nt u by (simp add: process_match_def Let_def first_time_def line_time_def)
  next
    assume "m3 = ''BTN_TOUCH''" "v = 1"
    then show ?thesis
      using nt u by (simp add: process_match_def Let_def first_time_def line_time_def)
  qed
qed

lemma process_match_other_type:
  "m2 \<noteq> ''EV_ABS'' \<Longrightarrow> process_match e st m1 m2 m3 m4 = st\<lparr>firstTimestamp := first_time st m1\<rparr>"
  by (simp add: process_match_def Let_def first_time_def line_time_def)

lemma ev_value_words: "ev_value ''DOWN'' = Some 1" "ev_value ''UP'' = Some 0"
  by code_simp+

lemma down_word_match:
  "FindStringSubmatch line_re 4 ''[ 1.000000] EV_ABS BTN_TOUCH DOWN'' =
     [''[ 1.000000] EV_ABS BTN_TOUCH D'', ''1.000000'', ''EV_ABS'', ''BTN_TOUCH'', ''D'']"
  by code_simp

lemma down_word_value: "ev_value ''D'' = Some 13"
  by code_simp

lemma down_word_line:
  "\<not> tracking (process_line example_ranges init_pstate ''[ 1.000000] EV_ABS BTN_TOUCH DOWN'')"
  by code_simp

lemma numeric_down_line:
  "tracking (process_line example_ranges init_pstate ''[ 1.000000] EV_ABS BTN_TOUCH 00000001'')"
  by code_simp

lemma down_word_parse:
  "Events (parseRawEvents f (example_session ''500x500'' 0 1000 0 1000
     [''[ 1.000000] EV_ABS BTN_TOUCH DOWN'',
      ''[ 1.000000] EV_ABS ABS_MT_POSITION_X 00000064'',
      ''[ 1.000000] EV_ABS ABS_MT_POSITION_Y 00000064'',
      ''[ 1.050000] EV_ABS BTN_TOUCH UP''])) = []"
  by code_simp

text \<open>
  Claim C4.  Both protocols are handled after the match of a line, and by the same rules:
  a tracking id other than \<open>-1\<close> or a \<^verbatim>\<open>BTN_TOUCH\<close> value 1 opens a stroke, the id \<open>-1\<close> or the
  value 0 closes it, and the words \<^verbatim>\<open>DOWN\<close> and \<^verbatim>\<open>UP\<close> are mapped to 1 and 0.  But the word
  \<^verbatim>\<open>DOWN\<close> never reaches that mapping: the pattern tries the hexadecimal digits first, and
  they match its letter \<^verbatim>\<open>D\<close>, the value 13.  A stroke reported with the words is therefore
  never opened, and its lines yield no event, where the same lines with the value
  \<^verbatim>\<open>00000001\<close> open it.
\<close>

theorem btn_touch_down_word_opens_no_stroke:
  "FindStringSubmatch line_re 4 ''[ 1.000000] EV_ABS BTN_TOUCH DOWN'' =
     [''[ 1.000000] EV_ABS BTN_TOUCH D'', ''1.000000'', ''EV_ABS'', ''BTN_TOUCH'', ''D''] \<and>
   ev_value ''D'' = Some 13 \<and>
   \<not> tracking (process_line example_ranges init_pstate ''[ 1.000000] EV_ABS BTN_TOUCH DOWN'') \<and>
   tracking (process_line example_ranges init_pstate ''[ 1.000000] EV_ABS BTN_TOUCH 00000001'') \<and>
   Events (parseRawEvents f (example_session ''500x500'' 0 1000 0 1000
     [''[ 1.000000] EV_ABS BTN_TOUCH DOWN'',
      ''[ 1.000000] EV_ABS ABS_MT_POSITION_X 00000064'',
      ''[ 1.000000] EV_ABS ABS_MT_POSITION_Y 00000064'',
      ''[ 1.050000] EV_ABS BTN_TOUCH UP''])) = []"
  using down_word_match down_word_value down_word_line numeric_down_line down_word_parse[of f]
  by (intro conjI)

section \<open>The claim about the bounds selector\<close>

lemma bounds_selector_result:
  assumes "SelectorType sel = ''bounds''"
  shows "FindElementBySelector xp pt adv (Some tree) (Some sel) =
         Inr (Some (UINode [] [] [] [] (Value sel) []))"
  using assms by (simp add: FindElementBySelector_def)

text \<open>
  Claim C6.  For a selector of type bounds \<^verbatim>\<open>FindElementBySelector\<close> does not search the
  tree: it returns a node made from the value of the selector.  On the example tree, no
  node of which has the bounds \<open>[5,5][6,6]\<close>, the result is such a node, where the
  specification (and the search of the front end) gives none.
\<close>

theorem bounds_selector_returns_fresh_node:
  "FindElementBySelector xp pt adv (Some example_tree) (Some example_bounds_selector) =
     Inr (Some (UINode [] [] [] [] ''[5,5][6,6]'' [])) \<and>
   UINode [] [] [] [] ''[5,5][6,6]'' [] \<notin> set (tree_nodes example_tree) \<and>
   collectMatchingNodes (\<lambda>n. Bounds n = ''[5,5][6,6]'') example_tree = [] \<and>
   spec_find_by_bounds example_tree ''[5,5][6,6]'' 0 = Inr None"
  by (simp add: FindElementBySelector_def example_tree_def example_bounds_selector_def
      tree_nodes_def spec_find_by_bounds_def element_at_def)

section \<open>The claims about sessions\<close>



lemma play_example:
  "PlayTouchScript ''emulator-5554'' example_script example_app =
     (None, example_playing, Some example_task)"
  by (simp add: PlayTouchScript_def example_app_def example_playing_def example_task_def
      example_script_def)

subsection \<open>The playback task\<close>

lemma run_event_facts:
  "cancelled (run_event t i st) = cancelled st"
  "touchPlaybackCancel (run_event t i st) = touchPlaybackCancel st"
  "length (adb_log (run_event t i st)) \<le> Suc (length (adb_log st))"
  "completions d (run_event t i st) = completions d st"
  by (simp_all add: run_event_def Let_def completions_def)

lemma task_step_fields:
  "t_ctx (fst (task_step inp (t, st))) = t_ctx t"
  "t_device (fst (task_step inp (t, st))) = t_device t"
  "t_script (fst (task_step inp (t, st))) = t_script t"
  "cancelled (snd (task_step inp (t, st))) = cancelled st"
  by (simp_all add: task_step_def run_event_facts split: pc.splits)

lemma task_step_commands:
  assumes "t_ctx t \<in> cancelled st"
  shows "length (adb_log (snd (task_step inp (t, st)))) +
           cmd_bound (t_pc (fst (task_step inp (t, st)))) \<le>
         length (adb_log st) + cmd_bound (t_pc t)"
  using assms run_event_facts(3)[of t _ st]
  by (auto simp: task_step_def cmd_bound_def split: pc.splits)

lemma stop_facts:
  "adb_log (StopTouchPlayback d st) = adb_log st"
  "emitted (StopTouchPlayback d st) = emitted st"
  "cancelled st \<subseteq> cancelled (StopTouchPlayback d st)"
  "completions d' (StopTouchPlayback d st) = completions d' st"
  by (auto simp: StopTouchPlayback_def completions_def split: option.splits)

lemma run_sched_fields:
  "t_ctx (fst (run_sched acts (t, st))) = t_ctx t \<and>
   t_device (fst (run_sched acts (t, st))) = t_device t \<and>
   t_script (fst (run_sched acts (t, st))) = t_script t"
proof (induction acts arbitrary: t st)
  case Nil
  show ?case by simp
next
  case (Cons a acts)
  show ?case
  proof (cases a)
    case (Step inp)
    obtain t' st' where s: "task_step inp (t, st) = (t', st')" by (cases "task_step inp (t, st)")
    have "t_ctx t' = t_ctx t" "t_device t' = t_device t" "t_script t' = t_script t"
      using task_step_fields(1-3)[of inp t st] s by simp_all
    then show ?thesis using Cons.IH[of t' st'] Step s by simp
  next
    case (Stop d)
    then show ?thesis using Cons.IH[of t "StopTouchPlayback d st"] by simp
  qed
qed

lemma commands_after_cancel:
  assumes "t_ctx t \<in> cancelled st"
  shows "length (adb_log (snd (run_sched acts (t, st)))) \<le> length (adb_log st) + cmd_bound (t_pc t)"
  using assms
proof (induction acts arbitrary: t st)
  case Nil
  show ?case by simp
next
  case (Cons a acts)
  show ?case
  proof (cases a)
    case (Step inp)
    obtain t' st' where s: "task_step inp (t, st) = (t', st')" by (cases "task_step inp (t, st)")
    have c: "t_ctx t' \<in> cancelled st'"
      using task_step_fields(1,4)[of inp t st] s Cons.prems by simp
    have "length (adb_log st') + cmd_bound (t_pc t') \<le> length (adb_log st) + cmd_bound (t_pc t)"
      using task_step_commands[OF Cons.prems, of inp] s by simp
    with Cons.IH[OF c] show ?thesis using Step s by simp
  next
    case (Stop d)
    have c: "t_ctx t \<in> cancelled (StopTouchPlayback d st)"
      using Cons.prems stop_facts(3)[of st d] by auto
    from Cons.IH[OF c] show ?thesis using Stop by (simp add: stop_facts)
  qed
qed


lemma task_step_completions:
  "completions (t_device t) (snd (task_step inp (t, st))) + unfinished (fst (task_step inp (t, st))) =
   completions (t_device t) st + unfinished t"
  by (cases "t_pc t")
     (simp_all add: task_step_def unfinished_def run_event_facts, simp_all add: completions_def)

lemma completions_run:
  "completions (t_device t) (snd (run_sched acts (t, st))) + unfinished (fst (run_sched acts (t, st))) =
   completions (t_device t) st + unfinished t"
proof (induction acts arbitrary: t st)
  case Nil
  show ?case by simp
next
  case (Cons a acts)
  show ?case
  proof (cases a)
    case (Step inp)
    obtain t' st' where s: "task_step inp (t, st) = (t', st')" by (cases "task_step inp (t, st)")
    have d: "t_device t' = t_device t" using task_step_fields(2)[of inp t st] s by simp
    have "completions (t_device t) st' + unfinished t' = completions (t_device t) st + unfinished t"
      using task_step_completions[of t inp st] s by simp
    with Cons.IH[of t' st'] show ?thesis using Step s d by simp
  next
    case (Stop d)
    from Cons.IH[of t "StopTouchPlayback d st"] show ?thesis using Stop by (simp add: stop_facts)
  qed
qed

lemma task_step_marker:
  assumes "t_pc t = Finished \<longrightarrow> touchPlaybackCancel st (t_device t) = None"
  shows "t_pc (fst (task_step inp (t, st))) = Finished \<longrightarrow>
         touchPlaybackCancel (snd (task_step inp (t, st))) (t_device t) = None"
  using assms by (auto simp: task_step_def run_event_facts split: pc.splits)

lemma stop_marker:
  "touchPlaybackCancel st d' = None \<Longrightarrow> touchPlaybackCancel (StopTouchPlayback d st) d' = None"
  by (auto simp: StopTouchPlayback_def split: option.splits)

lemma marker_run:
  assumes "t_pc t = Finished \<longrightarrow> touchPlaybackCancel st (t_device t) = None"
  shows "t_pc (fst (run_sched acts (t, st))) = Finished \<longrightarrow>
         touchPlaybackCancel (snd (run_sched acts (t, st))) (t_device t) = None"
  using assms
proof (induction acts arbitrary: t st)
  case Nil
  then show ?case by simp
next
  case (Cons a acts)
  show ?case
  proof (cases a)
    case (Step inp)
    obtain t' st' where s: "task_step inp (t, st) = (t', st')" by (cases "task_step inp (t, st)")
    have d: "t_device t' = t_device t" using task_step_fields(2)[of inp t st] s by simp
    have "t_pc t' = Finished \<longrightarrow> touchPlaybackCancel st' (t_device t') = None"
      using task_step_marker[OF Cons.prems, of inp] s d by simp
    from Cons.IH[OF this] show ?thesis using Step s d by simp
  next
    case (Stop d)
    have "t_pc t = Finished \<longrightarrow> touchPlaybackCancel (StopTouchPlayback d st) (t_device t) = None"
      using Cons.prems stop_marker by auto
    from Cons.IH[OF this] show ?thesis using Stop by simp
  qed
qed

lemma task_step_progress:
  "steps_left (fst (task_step inp (t, st))) \<le> steps_left t - 1"
  by (auto simp: task_step_def steps_left_def split: pc.splits)

lemma steps_left_run:
  "steps_left (fst (run_sched acts (t, st))) \<le> steps_left t - length (filter is_step acts)"
proof (induction acts arbitrary: t st)
  case Nil
  show ?case by simp
next
  case (Cons a acts)
  show ?case
  proof (cases a)
    case (Step inp)
    obtain t' st' where s: "task_step inp (t, st) = (t', st')" by (cases "task_step inp (t, st)")
    have "steps_left t' \<le> steps_left t - 1" using task_step_progress[of inp t st] s by simp
    with Cons.IH[of t' st'] show ?thesis using Step s by simp
  next
    case (Stop d)
    from Cons.IH[of t "StopTouchPlayback d st"] show ?thesis using Stop by simp
  qed
qed

lemma steps_left_zero: "steps_left t = 0 \<longleftrightarrow> t_pc t = Finished"
  by (simp add: steps_left_def split: pc.splits)

lemma stop_cancels:
  "touchPlaybackCancel st d = Some c \<Longrightarrow>
   c \<in> cancelled (StopTouchPlayback d st) \<and> touchPlaybackCancel (StopTouchPlayback d st) d = None"
  by (simp add: StopTouchPlayback_def)

lemma example_run_finished:
  "t_pc (fst (run_sched (replicate 8 (Step example_input)) (example_task, example_playing))) = Finished"
  by code_simp

text \<open>
  Claim C8, as it stands, fails: a stop that arrives when the task has passed the test of
  its context, here for the first event, whose time has come, does not keep the task from
  running the command of that event.
\<close>

theorem stop_after_check_counterexample:
  "t_ctx example_task \<in>
     cancelled (snd (run_sched [Step example_input, Stop ''emulator-5554'']
                       (example_task, example_playing))) \<and>
   adb_log (snd (run_sched [Step example_input, Stop ''emulator-5554'']
                   (example_task, example_playing))) = [] \<and>
   adb_log (snd (run_sched [Step example_input, Stop ''emulator-5554'', Step example_input]
                   (example_task, example_playing))) =
     [(''emulator-5554'', ''shell input tap 100 200'')]"
  by code_simp

text \<open>
  Claim C8, amended.  Once \<^verbatim>\<open>StopTouchPlayback\<close> has cancelled the playback of a device, its
  task runs at most one more device command, and none if the stop finds it at the head of
  its loop; this for every interleaving of further steps and stops.  And in every
  interleaving, with a stop or without, the task ends within the steps that its script
  bounds, the marker of the device is clear when it has ended, and it has then emitted the
  notification of completion exactly once, and not before.
\<close>

theorem playback_cancellation:
  assumes active: "touchPlaybackCancel st (t_device t) = Some (t_ctx t)"
    and running: "t_pc t \<noteq> Finished"
  shows "length (adb_log (snd (run_sched (Stop (t_device t) # acts) (t, st)))) \<le>
           length (adb_log st) + cmd_bound (t_pc t) \<and>
         cmd_bound (t_pc t) \<le> 1 \<and>
         completions (t_device t) (snd (run_sched acts (t, st))) =
           completions (t_device t) st +
           (if t_pc (fst (run_sched acts (t, st))) = Finished then 1 else 0) \<and>
         (t_pc (fst (run_sched acts (t, st))) = Finished \<longrightarrow>
            touchPlaybackCancel (snd (run_sched acts (t, st))) (t_device t) = None) \<and>
         (steps_left t \<le> length (filter is_step acts) \<longrightarrow>
            t_pc (fst (run_sched acts (t, st))) = Finished)"
proof (intro conjI impI)
  have c: "t_ctx t \<in> cancelled (StopTouchPlayback (t_device t) st)"
    using stop_cancels[OF active] by simp
  show "length (adb_log (snd (run_sched (Stop (t_device t) # acts) (t, st)))) \<le>
          length (adb_log st) + cmd_bound (t_pc t)"
    using commands_after_cancel[OF c, of acts] by (simp add: stop_facts)
  show "cmd_bound (t_pc t) \<le> 1" by (simp add: cmd_bound_def split: pc.splits)
  show "completions (t_device t) (snd (run_sched acts (t, st))) =
          completions (t_device t) st +
          (if t_pc (fst (run_sched acts (t, st))) = Finished then 1 else 0)"
    using completions_run[of t acts st] running by (simp add: unfinished_def split: if_splits)
  show "touchPlaybackCancel (snd (run_sched acts (t, st))) (t_device t) = None"
    if "t_pc (fst (run_sched acts (t, st))) = Finished"
    using marker_run[of t st acts] running that by simp
  show "t_pc (fst (run_sched acts (t, st))) = Finished"
    if "steps_left t \<le> length (filter is_step acts)"
    using steps_left_run[of acts t st] that steps_left_zero[of "fst (run_sched acts (t, st))"]
    by simp
qed

theorem playback_cancellation_witness:
  "touchPlaybackCancel example_playing (t_device example_task) = Some (t_ctx example_task) \<and>
   t_pc example_task \<noteq> Finished \<and>
   steps_left example_task \<le> length (filter is_step (replicate 8 (Step example_input))) \<and>
   t_pc (fst (run_sched (replicate 8 (Step example_input)) (example_task, example_playing))) =
     Finished \<and>
   touchPlaybackCancel (snd (run_sched (replicate 8 (Step example_input))
       (example_task, example_playing))) (t_device example_task) = None \<and>
   completions (t_device example_task) (snd (run_sched (replicate 8 (Step example_input))
       (example_task, example_playing))) = 1 \<and>
   length (adb_log (snd (run_sched (Stop (t_device example_task) # replicate 8 (Step example_input))
       (example_task, example_playing)))) = 0"
proof -
  have a: "touchPlaybackCancel example_playing (t_device example_task) = Some (t_ctx example_task)"
    by (simp add: example_playing_def example_task_def)
  have b: "t_pc example_task \<noteq> Finished" by (simp add: example_task_def)
  have s: "steps_left example_task = 8"
    by (simp add: steps_left_def example_task_def example_script_def)
  have l: "length (filter is_step (replicate 8 (Step example_input))) = 8" by simp
  have c0: "completions (t_device example_task) example_playing = 0"
    by (simp add: completions_def example_playing_def example_app_def example_task_def)
  have l0: "adb_log example_playing = []" by (simp add: example_playing_def example_app_def)
  have cb: "cmd_bound (t_pc example_task) = 0" by (simp add: cmd_bound_def example_task_def)
  show ?thesis
    using playback_cancellation[OF a b, of "replicate 8 (Step example_input)"] a b
    by (simp only: s l c0 l0 cb example_run_finished) simp
qed

section \<open>The claim about the script store\<close>

lemma digit_val_char: "d < 10 \<Longrightarrow> digit_val (char_of (48 + d)) = Some (int d)"
  by (simp add: digit_val_def Let_def)

lemma digits_of_simps:
  "n < 10 \<Longrightarrow> digits_of n = [char_of (48 + n)]"
  "\<not> n < 10 \<Longrightarrow> digits_of n = digits_of (n div 10) @ [char_of (48 + n mod 10)]"
  by (subst digits_of.simps, simp)+

lemma ParseUint_loop_digit:
  assumes "d < 10" and "0 \<le> acc" and "acc * 10 + int d \<le> M" and "M \<le> 2 ^ 64 - 1"
  shows "ParseUint_loop 10 M acc (char_of (48 + d) # rest) =
         ParseUint_loop 10 M (acc * 10 + int d) rest"
proof -
  have "acc * 10 \<le> 2 ^ 64 - 1" using assms by linarith
  then have "acc \<le> (2 ^ 64 - 1) div 10" by simp
  then have c: "\<not> (2 ^ 64 - 1) div 10 + 1 \<le> acc" by simp
  have r: "\<not> (2 ^ 64 - 1 < acc * 10 + int d \<or> M < acc * 10 + int d)" using assms by linarith
  show ?thesis
    using assms(1) c r by (simp add: digit_val_char del: ParseUint_loop.simps(2) add: ParseUint_loop.simps(2)[of 10 M acc])
qed


lemma ParseUint_loop_digits:
  "0 \<le> acc \<Longrightarrow> acc * 10 ^ length (digits_of n) + int n \<le> M \<Longrightarrow> M \<le> 2 ^ 64 - 1 \<Longrightarrow>
   ParseUint_loop 10 M acc (digits_of n @ rest) =
   ParseUint_loop 10 M (acc * 10 ^ length (digits_of n) + int n) rest"
proof (induction n arbitrary: acc rest rule: digits_of.induct)
  case (1 n)
  show ?case
  proof (cases "n < 10")
    case True
    have le: "acc * 10 + int n \<le> M" using "1.prems"(2) True by (simp add: digits_of_simps(1))
    have "ParseUint_loop 10 M acc (char_of (48 + n) # rest) =
          ParseUint_loop 10 M (acc * 10 + int n) rest"
      by (rule ParseUint_loop_digit[OF True "1.prems"(1) le "1.prems"(3)])
    then show ?thesis using True by (simp add: digits_of_simps(1) del: ParseUint_loop.simps)
  next
    case False
    define k where "k = length (digits_of (n div 10))"
    define acc' where "acc' = acc * 10 ^ k + int (n div 10)"
    have len: "length (digits_of n) = Suc k" using False by (simp add: digits_of_simps(2) k_def)
    have n: "int n = int (n div 10) * 10 + int (n mod 10)" by (simp add: zdiv_int zmod_int)
    have total: "acc' * 10 + int (n mod 10) = acc * 10 ^ length (digits_of n) + int n"
      unfolding acc'_def len using n by (simp add: algebra_simps)
    have acc'0: "0 \<le> acc'" using "1.prems"(1) by (simp add: acc'_def)
    have le: "acc' * 10 + int (n mod 10) \<le> M" using "1.prems"(2) total by simp
    have "acc' \<le> acc' * 10 + int (n mod 10)" using acc'0 by simp
    with le have le': "acc * 10 ^ length (digits_of (n div 10)) + int (n div 10) \<le> M"
      by (simp add: acc'_def k_def)
    have d: "n mod 10 < 10" by simp
    have "ParseUint_loop 10 M acc (digits_of n @ rest) =
          ParseUint_loop 10 M acc (digits_of (n div 10) @ (char_of (48 + n mod 10) # rest))"
      using False by (simp add: digits_of_simps(2))
    also have "\<dots> = ParseUint_loop 10 M acc' (char_of (48 + n mod 10) # rest)"
      using "1.IH"[OF False "1.prems"(1) le' "1.prems"(3)] by (simp add: acc'_def k_def)
    also have "\<dots> = ParseUint_loop 10 M (acc' * 10 + int (n mod 10)) rest"
      by (rule ParseUint_loop_digit[OF d acc'0 le "1.prems"(3)])
    finally show ?thesis by (simp only: total)
  qed
qed

lemma digits_of_nonempty: "digits_of n \<noteq> []"
  by (subst digits_of.simps) simp

lemma digits_of_hd: "hd (digits_of n) \<noteq> CHR ''-'' \<and> hd (digits_of n) \<noteq> CHR ''+''"
proof (induction n rule: digits_of.induct)
  case (1 n)
  show ?case
  proof (cases "n < 10")
    case True
    have a: "char_of (48 + n) \<noteq> CHR ''-''"
    proof
      assume "char_of (48 + n) = CHR ''-''"
      then have "(of_char (char_of (48 + n)) :: nat) = of_char CHR ''-''" by (rule arg_cong)
      then show False using True by simp
    qed
    have b: "char_of (48 + n) \<noteq> CHR ''+''"
    proof
      assume "char_of (48 + n) = CHR ''+''"
      then have "(of_char (char_of (48 + n)) :: nat) = of_char CHR ''+''" by (rule arg_cong)
      then show False using True by simp
    qed
    from a b show ?thesis using True by (simp add: digits_of_simps(1))

  next
    case False
    then show ?thesis using "1.IH" digits_of_nonempty[of "n div 10"]
      by (simp add: digits_of_simps(2))
  qed
qed

lemma ParseUint_digits:
  assumes "int n \<le> 2 ^ 64 - 1"
  shows "ParseUint (digits_of n) 10 64 = (int n, None)"
proof -
  have "ParseUint_loop 10 (2 ^ 64 - 1) 0 (digits_of n @ []) =
        ParseUint_loop 10 (2 ^ 64 - 1) (0 * 10 ^ length (digits_of n) + int n) []"
    by (rule ParseUint_loop_digits) (use assms in simp_all)
  then show ?thesis by (simp add: ParseUint_def digits_of_nonempty)
qed

lemma ParseInt_FormatInt:
  assumes "in_int64 i"
  shows "ParseInt (FormatInt i) 10 64 = (i, None)"
proof (cases "i < 0")
  case False
  then have n: "int (nat i) = i" by simp
  have u: "ParseUint (digits_of (nat i)) 10 64 = (i, None)"
    using ParseUint_digits[of "nat i"] assms n by (simp add: in_int64_def)
  show ?thesis
    using False assms u digits_of_hd[of "nat i"] digits_of_nonempty[of "nat i"]
    by (simp add: ParseInt_def FormatInt_def Let_def in_int64_def)
next
  case True
  then have n: "int (nat (- i)) = - i" by simp
  have u: "ParseUint (digits_of (nat (- i))) 10 64 = (- i, None)"
    using ParseUint_digits[of "nat (- i)"] assms n by (simp add: in_int64_def)
  show ?thesis
    using True assms u
    by (simp add: ParseInt_def FormatInt_def Let_def in_int64_def)
qed

lemma decode_int_FormatInt: "in_int64 i \<Longrightarrow> decode_int (JNumber (FormatInt i)) old = Some i"
  by (simp add: decode_int_def ParseInt_FormatInt)


lemma fold_key_literals:
  "fold_key ''timestamp'' = ''timestamp''" "fold_key ''type'' = ''type''"
  "fold_key ''x'' = ''x''" "fold_key ''y'' = ''y''" "fold_key ''x2'' = ''x2''"
  "fold_key ''y2'' = ''y2''" "fold_key ''duration'' = ''duration''"
  "fold_key ''deviceId'' = ''deviceid''" "fold_key ''name'' = ''name''"
  "fold_key ''resolution'' = ''resolution''" "fold_key ''createdAt'' = ''createdat''"
  "fold_key ''events'' = ''events''"
  by code_simp+

lemma decode_event_marshal:
  assumes "event_in_range ev"
  shows "decode_event (marshal_event omitempty utf8 ev) = Some (ev\<lparr>Type := utf8 (Type ev)\<rparr>)"
  using assms
  by (cases "omitempty \<and> X2 ev = 0"; cases "omitempty \<and> Y2 ev = 0";
      cases "omitempty \<and> Duration ev = 0")
     (simp_all add: decode_event_def marshal_event_def decode_event_member_def Let_def
        fold_key_literals decode_int_FormatInt decode_string_def zero_event_def
        event_in_range_def)

lemma decode_events_marshal:
  "\<forall>ev\<in>set evs. event_in_range ev \<Longrightarrow>
   decode_events (map (marshal_event omitempty utf8) evs) =
   Some (map (\<lambda>ev. ev\<lparr>Type := utf8 (Type ev)\<rparr>) evs)"
  by (induction evs) (simp_all add: decode_event_marshal)

lemma unmarshal_marshal:
  assumes "\<forall>ev\<in>set (Events script). event_in_range ev"
  shows "unmarshal_script (marshal_script omitempty utf8 script) = Some (stored_script utf8 script)"
  using decode_events_marshal[OF assms, of omitempty utf8]
  by (simp add: unmarshal_script_def marshal_script_def decode_script_member_def Let_def
      fold_key_literals decode_string_def zero_script_def stored_script_def)

lemma HasSuffix_append: "HasSuffix (s @ t) t"
  by (simp add: HasSuffix_def)


text \<open>
  Claim C9.  A script whose numbers are values of Go's integer types comes back from the
  encoding of \<^verbatim>\<open>SaveTouchScript\<close> and the decoding of \<^verbatim>\<open>LoadTouchScripts\<close> with the same
  number of events in the same order and with every timestamp, coordinate and duration
  unchanged; so does it from the file that \<^verbatim>\<open>SaveTouchScript\<close> writes, listed to
  \<^verbatim>\<open>LoadTouchScripts\<close>.  (Its strings come back as the encoder writes them.)
\<close>

theorem store_round_trip:
  assumes "\<forall>ev\<in>set (Events script). event_in_range ev"
  shows "unmarshal_script (marshal_script omitempty utf8 script) = Some (stored_script utf8 script) \<and>
         LoadTouchScripts [((if safe = [] then ''script_'' @ FormatInt now else safe) @ ''.json'', False)]
           (SaveTouchScript omitempty utf8 (\<lambda>n. safe) now script dir) =
           [stored_script utf8 script] \<and>
         length (Events (stored_script utf8 script)) = length (Events script) \<and>
         map Timestamp (Events (stored_script utf8 script)) = map Timestamp (Events script) \<and>
         map X (Events (stored_script utf8 script)) = map X (Events script) \<and>
         map Y (Events (stored_script utf8 script)) = map Y (Events script) \<and>
         map X2 (Events (stored_script utf8 script)) = map X2 (Events script) \<and>
         map Y2 (Events (stored_script utf8 script)) = map Y2 (Events script) \<and>
         map Duration (Events (stored_script utf8 script)) = map Duration (Events script)"
proof (intro conjI)
  show "unmarshal_script (marshal_script omitempty utf8 script) = Some (stored_script utf8 script)"
    by (rule unmarshal_marshal[OF assms])
  show "LoadTouchScripts [((if safe = [] then ''script_'' @ FormatInt now else safe) @ ''.json'', False)]
           (SaveTouchScript omitempty utf8 (\<lambda>n. safe) now script dir) =
           [stored_script utf8 script]"
    using HasSuffix_append[of "''script_'' @ FormatInt now" "''.json''"]
      HasSuffix_append[of safe "''.json''"]
    by (simp add: SaveTouchScript_def Let_def unmarshal_marshal[OF assms])
qed (simp_all add: stored_script_def comp_def)

theorem store_round_trip_witness:
  "event_in_range (Events example_script ! 0) \<and> event_in_range (Events example_script ! 1) \<and>
   unmarshal_script (marshal_script True (\<lambda>s. s) example_script) = Some example_script \<and>
   LoadTouchScripts [(''login.json'', False)]
     (SaveTouchScript True (\<lambda>s. s) (\<lambda>n. ''login'') 0 example_script Map.empty) = [example_script] \<and>
   map Y2 (Events example_script) = [0, - 3]"
proof -
  have r: "event_in_range (Events example_script ! 0)" "event_in_range (Events example_script ! 1)"
    by (simp_all add: example_script_def event_in_range_def in_int64_def)
  have a: "\<forall>ev\<in>set (Events example_script). event_in_range ev"
    using r by (simp add: example_script_def)
  have s: "stored_script (\<lambda>s. s) example_script = example_script"
    by (simp add: stored_script_def example_script_def)
  have y: "map Y2 (Events example_script) = [0, - 3]" by (simp add: example_script_def)
  show ?thesis
    using store_round_trip[OF a, of True "\<lambda>s. s" "''login''" 0 Map.empty] r y
    by (simp add: s)
qed

end
